theory Spec2Isabelle
  imports Main
begin

section \<open>The task list manager of the matching service\<close>

text \<open>
  A shallow embedding of \<^verbatim>\<open>service/matching/taskListManager.go\<close>. One manager
  instance (\<^verbatim>\<open>taskListManagerImpl\<close>) is a record; every method takes the record and
  returns the updated one. The collaborators the file only calls (the matcher, the task
  writer and reader, the store adapter, the engine registry, the namespace cache and the
  clock) are represented by the calls the manager makes on them, logged in the record, and
  by their answers, which come from an environment that may answer differently at every
  step. Logging and metric counters are left out. The lazily cached namespace name and
  metric scope (\<^verbatim>\<open>namespaceValue\<close>, \<^verbatim>\<open>metricScopeValue\<close>) are modelled where they
  decide an outcome, in the constructor; after it no other field depends on them.
  Blocking (\<^verbatim>\<open>startWG.Wait\<close>, channel operations inside the matcher) and goroutine
  interleavings are not represented; each method is modelled as it runs on its own. The
  methods that only read or delegate (\<^verbatim>\<open>DispatchTask\<close>, \<^verbatim>\<open>DispatchQueryTask\<close>,
  \<^verbatim>\<open>GetAllPollerInfo\<close>, \<^verbatim>\<open>DescribeTaskList\<close>, \<^verbatim>\<open>String\<close>) are not modelled.
\<close>

subsection \<open>Durations, instants and 64-bit arithmetic\<close>

text \<open>
  \<^verbatim>\<open>time.Duration\<close> and task ids are \<^verbatim>\<open>int64\<close>: arithmetic on them wraps.
  An instant (\<^verbatim>\<open>time.Time\<close>) is a count of nanoseconds with a wider range than
  \<^verbatim>\<open>int64\<close>; \<^verbatim>\<open>Time.Sub\<close> saturates at the least and greatest duration.
\<close>

type_synonym duration = int
type_synonym instant = int

definition wrap64 :: "int \<Rightarrow> int" where
  "wrap64 x = (x + 2 ^ 63) mod 2 ^ 64 - 2 ^ 63"

definition minDuration :: duration where
  "minDuration = - (2 ^ 63)"

definition maxDuration :: duration where
  "maxDuration = 2 ^ 63 - 1"

definition time_Sub :: "instant \<Rightarrow> instant \<Rightarrow> duration" where
  "time_Sub t u =
     (if t - u < minDuration then minDuration
      else if maxDuration < t - u then maxDuration
      else t - u)"

definition Millisecond :: duration where
  "Millisecond = 1000000"

definition Second :: duration where
  "Second = 1000000000"

text \<open>
  Modelled from the spec: \<^verbatim>\<open>common.MaxInt64\<close> is not in this file; it is the larger
  of its two arguments, and keeps the budget of a child context from going below zero.
\<close>

definition MaxInt64 :: "int \<Rightarrow> int \<Rightarrow> int" where
  "MaxInt64 a b = (if a > b then a else b)"

definition returnEmptyTaskTimeBudget :: duration where
  "returnEmptyTaskTimeBudget = Second"

definition syncMatchTaskId :: int where
  "syncMatchTaskId = - 137"

definition maxSyncMatchWaitTime :: duration where
  "maxSyncMatchWaitTime = 200 * Millisecond"

subsection \<open>Errors\<close>

datatype error =
    ConditionFailedError string
  | InternalError string
  | ResourceExhausted string
  | errRemoteSyncMatchFailed
  | errShutdown
  | errUserDataNoMutateNonRoot
  | allocTaskIDBlockInvalidState int int int
  | NamespaceNotActiveError string
  | OtherError string

fun isConditionFailedError :: "error option \<Rightarrow> bool" where
  "isConditionFailedError (Some (ConditionFailedError m)) = True"
| "isConditionFailedError e = False"

text \<open>
  Modelled from the spec: \<^verbatim>\<open>common.IsPersistenceTransientError\<close> is not in this file.
  The transient store errors (timeouts, unavailable, throttled) are the ones retried;
  every other error surfaces to the caller.
\<close>

fun IsPersistenceTransientError :: "error \<Rightarrow> bool" where
  "IsPersistenceTransientError (InternalError m) = True"
| "IsPersistenceTransientError (ResourceExhausted m) = True"
| "IsPersistenceTransientError e = False"

subsection \<open>Data\<close>

datatype TaskListKind = TASK_LIST_KIND_NORMAL | TASK_LIST_KIND_STICKY

datatype TaskListType = TASK_LIST_TYPE_DECISION | TASK_LIST_TYPE_ACTIVITY

datatype TaskSource = TASK_SOURCE_HISTORY | TASK_SOURCE_DB_BACKLOG

record taskListID =
  name :: string
  partition :: nat
  namespaceID :: string
  taskType :: TaskListType

record WorkflowExecution =
  WorkflowId :: string
  RunId :: string

record TaskInfo =
  NamespaceId :: string
  TaskWorkflowId :: string
  TaskRunId :: string
  ScheduleId :: int

record AllocatedTaskInfo =
  Data :: TaskInfo
  TaskId :: int

record addTaskParams =
  execution :: WorkflowExecution
  taskInfo :: TaskInfo
  source :: TaskSource
  forwardedFrom :: string

text \<open>
  Modelled from the spec: \<^verbatim>\<open>internalTask\<close> and \<^verbatim>\<open>newInternalTask\<close> are not in
  this file. A task carries its allocated task info, its source, the partition it was
  forwarded from, and whether it was made for a sync match; \<^verbatim>\<open>GetTask\<close> tags it with
  the namespace and the backlog hint. The completion callback (always
  \<^verbatim>\<open>c.completeTask\<close> here) is not a field of the model.
\<close>

record internalTask =
  event :: AllocatedTaskInfo
  taskSource :: TaskSource
  taskForwardedFrom :: string
  forSyncMatch :: bool
  namespace :: string
  backlogCountHint :: int

definition newInternalTask :: "AllocatedTaskInfo \<Rightarrow> TaskSource \<Rightarrow> string \<Rightarrow> bool \<Rightarrow> internalTask" where
  "newInternalTask info src fwdFrom sync =
     \<lparr> event = info, taskSource = src, taskForwardedFrom = fwdFrom, forSyncMatch = sync,
       namespace = [], backlogCountHint = 0 \<rparr>"

record namespaceEntry =
  nsName :: string
  GetNamespaceNotActiveErr :: "error option"

record taskIDBlock =
  blockStart :: int
  blockEnd :: int

record taskListState =
  rangeID :: int
  ackLevel :: int

record forwarderConfig =
  ForwarderMaxChildrenPerNode :: int
  ForwarderMaxOutstandingPolls :: int
  ForwarderMaxOutstandingTasks :: int

record taskListConfig =
  RangeSize :: int
  LongPollExpirationInterval :: duration
  fwdrConfig :: forwarderConfig

record Forwarder =
  fwdrCfg :: forwarderConfig
  fwdrTaskListID :: taskListID
  fwdrTaskListKind :: TaskListKind

subsection \<open>Contexts\<close>

text \<open>
  The request context a method receives: its deadline, if it has one, and the two values
  the manager reads from it. Whether its \<^verbatim>\<open>Done\<close> channel is closed changes with
  time, so that is an answer of the environment. What \<^verbatim>\<open>newChildContext\<close> hands
  on is either the request context itself or \<^verbatim>\<open>context.WithTimeout(parent, d)\<close>.
\<close>

record Context =
  Deadline :: "instant option"
  pollerIDValue :: "string option"
  identityValue :: "string option"

datatype childContext = Same Context | WithTimeout Context duration

datatype cancelFunc = NilCancel | NoopCancel | CancelOf childContext

subsection \<open>The environment\<close>

text \<open>
  One snapshot holds what the outside world answers at one step: the clock, which request
  contexts are done, the namespace cache, the matcher's outcome for an offer or a poll,
  the store's outcome for a write or a lease renewal, and what the acknowledgement
  tracker (not in this file) reports. The environment is a sequence
  of snapshots; the manager's \<open>tick\<close> says which one is current, and every attempt of a
  retried operation moves to the next, so each attempt may see different answers.
  \<open>persistenceOperationRetryPolicy\<close> is the number of back-offs the retry policy grants
  before it reports that it is done.
\<close>

record world =
  wNow :: instant
  wDone :: "Context \<Rightarrow> bool"
  wGetNamespaceByID :: "string \<Rightarrow> error + namespaceEntry"
  wOffer :: "childContext \<Rightarrow> internalTask \<Rightarrow> bool \<times> error option"
  wPoll :: "childContext \<Rightarrow> error + internalTask"
  wPollForQuery :: "childContext \<Rightarrow> error + internalTask"
  wCreateTasks :: "int \<Rightarrow> TaskInfo \<Rightarrow> error option"
  wLeaseTaskList :: "int \<Rightarrow> error + taskListState"
  wCompleteTask :: "int \<Rightarrow> int"
  wBacklogCountHint :: int
  wNamespaceName :: string

record environment =
  persistenceOperationRetryPolicy :: nat
  snapshot :: "nat \<Rightarrow> world"

subsection \<open>The manager\<close>

datatype matcherCall =
    Offer childContext internalTask
  | Poll childContext
  | PollForQuery childContext
  | UpdateRatelimit "int option"

record taskListManagerImpl =
  taskListID :: taskListID
  taskListKind :: TaskListKind
  config :: taskListConfig
  fwdr :: "Forwarder option"
  outstandingPollsMap :: "string \<rightharpoonup> cancelFunc"
  cancelled :: "childContext list"
  pollerHistory :: "(string \<times> int option) list"
  shutdownChClosed :: bool
  stopped :: int
  matcherCalls :: "matcherCall list"
  writerStopped :: bool
  writerBlock :: taskIDBlock
  appendTaskCalls :: "(WorkflowExecution \<times> TaskInfo) list"
  createTasksLog :: "(int \<times> TaskInfo \<times> error option) list"
  readerStopped :: bool
  readerSignals :: nat
  dbRangeID :: int
  ackMgrLevel :: int
  ackCompleted :: "int list"
  gcRuns :: "int list"
  registry :: "taskListID set"
  removeCalls :: nat
  tick :: nat

subsection \<open>Retrying\<close>

text \<open>
  Modelled from the spec: \<^verbatim>\<open>backoff.Retry\<close> is not in this file. It runs the
  operation; on an error it stops when the policy grants no further back-off or when the
  error is not retryable, and otherwise runs the operation again. The first argument is
  the number of back-offs the policy still grants.
\<close>

primrec Retry :: "nat \<Rightarrow> ('s \<Rightarrow> error option \<times> 's) \<Rightarrow> (error \<Rightarrow> bool) \<Rightarrow> 's \<Rightarrow> error option \<times> 's" where
  "Retry 0 operation isRetryable s =
     (case operation s of
        (None, s') \<Rightarrow> (None, s')
      | (Some err, s') \<Rightarrow> (Some err, s'))"
| "Retry (Suc n) operation isRetryable s =
     (case operation s of
        (None, s') \<Rightarrow> (None, s')
      | (Some err, s') \<Rightarrow>
          if \<not> isRetryable err then (Some err, s')
          else Retry n operation isRetryable s')"

text \<open>
  The state before the \<open>k\<close>-th run (counting from 0) of an operation that is run again
  and again from \<open>s\<close>.
\<close>

primrec stateBefore :: "('s \<Rightarrow> 'r \<times> 's) \<Rightarrow> nat \<Rightarrow> 's \<Rightarrow> 's" where
  "stateBefore operation 0 s = s"
| "stateBefore operation (Suc k) s = stateBefore operation k (snd (operation s))"

subsection \<open>Lifecycle: \<^verbatim>\<open>Stop\<close>\<close>

text \<open>
  Modelled from the spec: \<^verbatim>\<open>engine.removeTaskListManager\<close> is not in this file; it
  deletes the registry entry of the given task list.
\<close>

definition removeTaskListManager :: "taskListID \<Rightarrow> taskListManagerImpl \<Rightarrow> taskListManagerImpl" where
  "removeTaskListManager tid c =
     c\<lparr> registry := registry c - {tid}, removeCalls := removeCalls c + 1 \<rparr>"

text \<open>
  \<^verbatim>\<open>Stop\<close>: the compare-and-swap of \<open>stopped\<close> from 0 to 1 fails when the manager
  is already stopped, and then nothing else runs. \<^verbatim>\<open>taskWriter.Stop\<close> and
  \<^verbatim>\<open>taskReader.Stop\<close> are the flags \<open>writerStopped\<close> and \<open>readerStopped\<close>.
\<close>

definition Stop :: "taskListManagerImpl \<Rightarrow> taskListManagerImpl" where
  "Stop c =
     (if stopped c \<noteq> 0 then c
      else
        let c1 = c\<lparr> stopped := 1 \<rparr>;
            c2 = c1\<lparr> shutdownChClosed := True \<rparr>;
            c3 = c2\<lparr> writerStopped := True \<rparr>;
            c4 = c3\<lparr> readerStopped := True \<rparr>;
            c5 = removeTaskListManager (taskListID c4) c4
        in removeTaskListManager (taskListID c5) c5)"

text \<open>
  Modelled from the spec: \<^verbatim>\<open>engine.unloadTaskList\<close> is not in this file; the
  manager is taken out of the registry and stopped.
\<close>

definition unloadTaskList :: "taskListManagerImpl \<Rightarrow> taskListManagerImpl" where
  "unloadTaskList c = Stop (c\<lparr> registry := registry c - {taskListID c} \<rparr>)"

subsection \<open>Lease and task id blocks\<close>

definition rangeIDToTaskIDBlock :: "taskListManagerImpl \<Rightarrow> int \<Rightarrow> taskIDBlock" where
  "rangeIDToTaskIDBlock c rid =
     \<lparr> blockStart = wrap64 (wrap64 (wrap64 (rid - 1) * RangeSize (config c)) + 1),
       blockEnd = wrap64 (rid * RangeSize (config c)) \<rparr>"

text \<open>
  Modelled from the spec: the store adapter's \<^verbatim>\<open>RenewLease\<close> is not in this file. It
  asks the store for the lease with the range id it believes it holds; on success it
  remembers the range id the store granted and returns it with the persisted ack level.
\<close>

definition db_RenewLease ::
  "environment \<Rightarrow> taskListManagerImpl \<Rightarrow> (taskListState \<times> error option) \<times> taskListManagerImpl" where
  "db_RenewLease env c =
     (let w = snapshot env (tick c);
          c1 = c\<lparr> tick := tick c + 1 \<rparr>
      in case wLeaseTaskList w (dbRangeID c1) of
           Inl err \<Rightarrow> ((\<lparr> rangeID = 0, ackLevel = 0 \<rparr>, Some err), c1)
         | Inr st \<Rightarrow> ((st, None), c1\<lparr> dbRangeID := rangeID st \<rparr>))"

definition renewLeaseWithRetry ::
  "environment \<Rightarrow> taskListManagerImpl \<Rightarrow> (taskListState \<times> error option) \<times> taskListManagerImpl" where
  "renewLeaseWithRetry env c =
     (let op = (\<lambda>(newState, c0).
                  case db_RenewLease env c0 of ((st, err), c1) \<Rightarrow> (err, (st, c1)))
      in case Retry (persistenceOperationRetryPolicy env) op IsPersistenceTransientError
                (\<lparr> rangeID = 0, ackLevel = 0 \<rparr>, c) of
           (Some err, (newState, c1)) \<Rightarrow> ((newState, Some err), unloadTaskList c1)
         | (None, (newState, c1)) \<Rightarrow> ((newState, None), c1))"

definition allocTaskIDBlock ::
  "environment \<Rightarrow> int \<Rightarrow> taskListManagerImpl \<Rightarrow> (taskIDBlock \<times> error option) \<times> taskListManagerImpl" where
  "allocTaskIDBlock env prevBlockEnd c =
     (let currBlock = rangeIDToTaskIDBlock c (dbRangeID c)
      in if blockEnd currBlock \<noteq> prevBlockEnd then
           ((\<lparr> blockStart = 0, blockEnd = 0 \<rparr>,
             Some (allocTaskIDBlockInvalidState prevBlockEnd (blockStart currBlock) (blockEnd currBlock))), c)
         else
           case renewLeaseWithRetry env c of
             ((st, Some err), c1) \<Rightarrow> ((\<lparr> blockStart = 0, blockEnd = 0 \<rparr>, Some err), c1)
           | ((st, None), c1) \<Rightarrow> ((rangeIDToTaskIDBlock c1 (rangeID st), None), c1))"

subsection \<open>The task writer\<close>

text \<open>
  Modelled from the spec: the task writer is not in this file. \<^verbatim>\<open>appendTask\<close> takes
  the workflow execution and the task payload, never a task id: the writer pulls the next
  id from its current block and, when the block is exhausted, asks \<^verbatim>\<open>allocTaskIDBlock\<close>
  for the next one. A stopped writer refuses the request and writes nothing. Every write
  request sent to the store is logged in \<open>createTasksLog\<close> with the store's answer.
\<close>

definition allocTaskID ::
  "environment \<Rightarrow> taskListManagerImpl \<Rightarrow> (int \<times> error option) \<times> taskListManagerImpl" where
  "allocTaskID env c =
     (case (if blockStart (writerBlock c) > blockEnd (writerBlock c)
            then (case allocTaskIDBlock env (blockEnd (writerBlock c)) c of
                    ((blk, Some err), c1) \<Rightarrow> (Some err, c1)
                  | ((blk, None), c1) \<Rightarrow> (None, c1\<lparr> writerBlock := blk \<rparr>))
            else (None, c)) of
        (Some err, c1) \<Rightarrow> ((0, Some err), c1)
      | (None, c1) \<Rightarrow>
          let tid = blockStart (writerBlock c1)
          in ((tid, None),
              c1\<lparr> writerBlock := (writerBlock c1)\<lparr> blockStart := wrap64 (tid + 1) \<rparr> \<rparr>))"

definition appendTask ::
  "environment \<Rightarrow> world \<Rightarrow> taskListManagerImpl \<Rightarrow> WorkflowExecution \<Rightarrow> TaskInfo
     \<Rightarrow> (unit option \<times> error option) \<times> taskListManagerImpl" where
  "appendTask env w c0 exe ti =
     (let c = c0\<lparr> appendTaskCalls := appendTaskCalls c0 @ [(exe, ti)] \<rparr>
      in if writerStopped c then ((None, Some errShutdown), c)
         else
           case allocTaskID env c of
             ((tid, Some err), c1) \<Rightarrow> ((None, Some err), c1)
           | ((tid, None), c1) \<Rightarrow>
               let res = wCreateTasks w tid ti;
                   c2 = c1\<lparr> createTasksLog := createTasksLog c1 @ [(tid, ti, res)] \<rparr>
               in case res of
                    Some err \<Rightarrow> ((None, Some err), c2)
                  | None \<Rightarrow> ((Some (), None), c2))"

subsection \<open>Child contexts and the synchronous match\<close>

definition newChildContext ::
  "world \<Rightarrow> Context \<Rightarrow> duration \<Rightarrow> duration \<Rightarrow> childContext \<times> cancelFunc" where
  "newChildContext w parent timeout tailroom =
     (if wDone w parent then (Same parent, NoopCancel)
      else
        case Deadline parent of
          None \<Rightarrow> (WithTimeout parent timeout, CancelOf (WithTimeout parent timeout))
        | Some deadline \<Rightarrow>
            let remaining = wrap64 (time_Sub deadline (wNow w) - tailroom);
                timeout' = (if remaining < timeout then MaxInt64 0 remaining else timeout)
            in (WithTimeout parent timeout', CancelOf (WithTimeout parent timeout')))"

text \<open>
  Calling a cancel function: the no-op one does nothing, the one of a child context
  cancels that context. A nil function is never called by this file.
\<close>

fun invokeCancel :: "cancelFunc \<Rightarrow> taskListManagerImpl \<Rightarrow> taskListManagerImpl" where
  "invokeCancel (CancelOf x) c = c\<lparr> cancelled := cancelled c @ [x] \<rparr>"
| "invokeCancel NoopCancel c = c"
| "invokeCancel NilCancel c = c"

text \<open>
  Modelled from the spec: the matcher is not in this file. \<^verbatim>\<open>Offer\<close> is given a
  context and a task and answers whether the task was matched, with an error or without;
  the answer is the environment's, and the call is logged.
\<close>

definition matcher_Offer ::
  "world \<Rightarrow> childContext \<Rightarrow> internalTask \<Rightarrow> taskListManagerImpl \<Rightarrow> (bool \<times> error option) \<times> taskListManagerImpl" where
  "matcher_Offer w cx task c =
     (wOffer w cx task, c\<lparr> matcherCalls := matcherCalls c @ [Offer cx task] \<rparr>)"

definition trySyncMatch ::
  "world \<Rightarrow> Context \<Rightarrow> addTaskParams \<Rightarrow> taskListManagerImpl \<Rightarrow> (bool \<times> error option) \<times> taskListManagerImpl" where
  "trySyncMatch w ctx params c =
     (case newChildContext w ctx maxSyncMatchWaitTime Second of
        (childCtx, cancel) \<Rightarrow>
          let fakeTaskIdWrapper = \<lparr> Data = taskInfo params, TaskId = syncMatchTaskId \<rparr>;
              task = newInternalTask fakeTaskIdWrapper (source params) (forwardedFrom params) True
          in case matcher_Offer w childCtx task c of
               ((matched, err), c1) \<Rightarrow> ((matched, err), invokeCancel cancel c1))"

subsection \<open>\<^verbatim>\<open>executeWithRetry\<close> and \<^verbatim>\<open>AddTask\<close>\<close>

text \<open>
  The operation is a Go closure: besides the manager it may write variables of its
  caller (\<^verbatim>\<open>syncMatch\<close> in \<^verbatim>\<open>AddTask\<close>), which are the first component of the
  state it transforms. \<open>capturing\<close> is the closure \<^verbatim>\<open>op\<close>, which stores the
  operation's result and error in the variables \<^verbatim>\<open>executeWithRetry\<close> returns, and
  \<open>retryUnlessConditionFailed\<close> is the closure that tells \<^verbatim>\<open>backoff.Retry\<close> which
  errors to retry.
\<close>

definition capturing ::
  "('s \<Rightarrow> ('r option \<times> error option) \<times> 's) \<Rightarrow> 'r option \<times> 's \<Rightarrow> error option \<times> ('r option \<times> 's)" where
  "capturing operation =
     (\<lambda>(result, s0). case operation s0 of ((result', err'), s1) \<Rightarrow> (err', (result', s1)))"

definition retryUnlessConditionFailed :: "error \<Rightarrow> bool" where
  "retryUnlessConditionFailed err =
     (if isConditionFailedError (Some err) then False else IsPersistenceTransientError err)"

definition executeWithRetry ::
  "environment \<Rightarrow> ('x \<times> taskListManagerImpl \<Rightarrow> ('r option \<times> error option) \<times> ('x \<times> taskListManagerImpl))
     \<Rightarrow> 'x \<times> taskListManagerImpl \<Rightarrow> ('r option \<times> error option) \<times> ('x \<times> taskListManagerImpl)" where
  "executeWithRetry env operation xc =
     (case Retry (persistenceOperationRetryPolicy env) (capturing operation)
             retryUnlessConditionFailed (None, xc) of
        (err, (result, (x, c))) \<Rightarrow>
          if isConditionFailedError err then ((result, err), (x, Stop c))
          else ((result, err), (x, c)))"

definition addTaskOperation ::
  "environment \<Rightarrow> Context \<Rightarrow> addTaskParams \<Rightarrow> bool \<times> taskListManagerImpl
     \<Rightarrow> (unit option \<times> error option) \<times> (bool \<times> taskListManagerImpl)" where
  "addTaskOperation env ctx params xc =
     (case xc of (syncMatch, c0) \<Rightarrow>
        let w = snapshot env (tick c0);
            c = c0\<lparr> tick := tick c0 + 1 \<rparr>;
            td = taskInfo params
        in case wGetNamespaceByID w (NamespaceId td) of
             Inl err \<Rightarrow> ((None, Some err), (syncMatch, c))
           | Inr namespaceEntry \<Rightarrow>
               if GetNamespaceNotActiveErr namespaceEntry \<noteq> None then
                 (case appendTask env w c (execution params) td of
                    (r, c1) \<Rightarrow> (r, (False, c1)))
               else
                 case trySyncMatch w ctx params c of
                   ((matched, err), c1) \<Rightarrow>
                     if matched then ((Some (), err), (matched, c1))
                     else if forwardedFrom params \<noteq> [] then
                       ((Some (), Some errRemoteSyncMatchFailed), (matched, c1))
                     else
                       case appendTask env w c1 (execution params) (taskInfo params) of
                         (r, c2) \<Rightarrow> (r, (matched, c2)))"

text \<open>
  Modelled from the spec: the task reader is not in this file. \<^verbatim>\<open>Signal\<close> tells it
  that new work was enqueued; the signals are counted.
\<close>

definition taskReader_Signal :: "taskListManagerImpl \<Rightarrow> taskListManagerImpl" where
  "taskReader_Signal c = c\<lparr> readerSignals := readerSignals c + 1 \<rparr>"

definition AddTask ::
  "environment \<Rightarrow> Context \<Rightarrow> addTaskParams \<Rightarrow> taskListManagerImpl
     \<Rightarrow> (bool \<times> error option) \<times> taskListManagerImpl" where
  "AddTask env ctx params c =
     (case executeWithRetry env (addTaskOperation env ctx params) (False, c) of
        ((r, err), (syncMatch, c1)) \<Rightarrow>
          ((syncMatch, err), (if err = None then taskReader_Signal c1 else c1)))"

subsection \<open>\<^verbatim>\<open>completeTask\<close> and \<^verbatim>\<open>Start\<close>\<close>

text \<open>
  The acknowledgement tracker and the garbage collector are not in this file: the ack
  level \<^verbatim>\<open>taskAckManager.completeTask\<close> returns is the environment's answer, and the
  calls are logged.
\<close>

definition completeTask ::
  "environment \<Rightarrow> AllocatedTaskInfo \<Rightarrow> error option \<Rightarrow> taskListManagerImpl \<Rightarrow> taskListManagerImpl" where
  "completeTask env task err c =
     (let finish = (\<lambda>c'. let lvl = wCompleteTask (snapshot env (tick c')) (TaskId task)
                          in c'\<lparr> ackCompleted := ackCompleted c' @ [TaskId task],
                                gcRuns := gcRuns c' @ [lvl] \<rparr>)
      in if err \<noteq> None then
           (case executeWithRetry env
                   (\<lambda>(u, c0).
                      let wf = \<lparr> WorkflowId = TaskWorkflowId (Data task), RunId = TaskRunId (Data task) \<rparr>
                      in case appendTask env (snapshot env (tick c0)) (c0\<lparr> tick := tick c0 + 1 \<rparr>)
                                wf (Data task) of
                           (r, c1) \<Rightarrow> (r, (u, c1)))
                   ((), c) of
              ((r, err'), (u, c1)) \<Rightarrow>
                if err' \<noteq> None then Stop c1
                else finish (taskReader_Signal c1))
         else finish c)"

definition Start :: "environment \<Rightarrow> taskListManagerImpl \<Rightarrow> error option \<times> taskListManagerImpl" where
  "Start env c =
     (case renewLeaseWithRetry env c of
        ((st, Some err), c1) \<Rightarrow> (Some err, Stop c1)
      | ((st, None), c1) \<Rightarrow>
          (None, c1\<lparr> ackMgrLevel := ackLevel st,
                     writerBlock := rangeIDToTaskIDBlock c1 (rangeID st) \<rparr>))"

subsection \<open>\<^verbatim>\<open>GetTask\<close> and \<^verbatim>\<open>CancelPoller\<close>\<close>

text \<open>
  The deferred calls of \<^verbatim>\<open>getTask\<close> run last, in reverse order: the poller id is
  deleted from the map, then \<^verbatim>\<open>cancel\<close> is called. The dispatch rate a poller
  advertises is only passed on, so it is an opaque number here. The namespace name and the
  backlog hint \<^verbatim>\<open>GetTask\<close> tags the task with are the environment's answers.
\<close>

definition getTask ::
  "environment \<Rightarrow> Context \<Rightarrow> int option \<Rightarrow> taskListManagerImpl
     \<Rightarrow> (error + internalTask) \<times> taskListManagerImpl" where
  "getTask env ctx maxDispatchPerSecond c0 =
     (let w = snapshot env (tick c0);
          c = c0\<lparr> tick := tick c0 + 1 \<rparr>
      in case newChildContext w ctx (LongPollExpirationInterval (config c)) returnEmptyTaskTimeBudget of
           (childCtx, cancel) \<Rightarrow>
             let registered = (case pollerIDValue ctx of Some pid \<Rightarrow> pid \<noteq> [] | None \<Rightarrow> False);
                 pollerID = (case pollerIDValue ctx of Some pid \<Rightarrow> pid | None \<Rightarrow> []);
                 c1 = (if registered
                       then c\<lparr> outstandingPollsMap := (outstandingPollsMap c)(pollerID \<mapsto> cancel) \<rparr>
                       else c);
                 c2 = (case identityValue ctx of
                         Some ident \<Rightarrow>
                           if ident \<noteq> []
                           then c1\<lparr> pollerHistory := pollerHistory c1 @ [(ident, maxDispatchPerSecond)] \<rparr>
                           else c1
                       | None \<Rightarrow> c1);
                 (res, c3) =
                   (case wGetNamespaceByID w (namespaceID (taskListID c2)) of
                      Inl err \<Rightarrow> (Inl err, c2)
                    | Inr namespaceEntry \<Rightarrow>
                        let c2' = c2\<lparr> matcherCalls := matcherCalls c2 @ [UpdateRatelimit maxDispatchPerSecond] \<rparr>
                        in if GetNamespaceNotActiveErr namespaceEntry \<noteq> None
                           then (wPollForQuery w childCtx,
                                 c2'\<lparr> matcherCalls := matcherCalls c2' @ [PollForQuery childCtx] \<rparr>)
                           else (wPoll w childCtx,
                                 c2'\<lparr> matcherCalls := matcherCalls c2' @ [Poll childCtx] \<rparr>));
                 c4 = (if registered
                       then c3\<lparr> outstandingPollsMap := (outstandingPollsMap c3)(pollerID := None) \<rparr>
                       else c3)
             in (res, invokeCancel cancel c4))"

definition GetTask ::
  "environment \<Rightarrow> Context \<Rightarrow> int option \<Rightarrow> taskListManagerImpl
     \<Rightarrow> (error + internalTask) \<times> taskListManagerImpl" where
  "GetTask env ctx maxDispatchPerSecond c =
     (case getTask env ctx maxDispatchPerSecond c of
        (Inl err, c1) \<Rightarrow> (Inl err, c1)
      | (Inr task, c1) \<Rightarrow>
          (Inr (task\<lparr> namespace := wNamespaceName (snapshot env (tick c)),
                      backlogCountHint := wBacklogCountHint (snapshot env (tick c)) \<rparr>), c1))"

definition CancelPoller :: "string \<Rightarrow> taskListManagerImpl \<Rightarrow> taskListManagerImpl" where
  "CancelPoller pollerID c =
     (case outstandingPollsMap c pollerID of
        None \<Rightarrow> c
      | Some cancel \<Rightarrow> if cancel \<noteq> NilCancel then invokeCancel cancel c else c)"

subsection \<open>Construction and forwarding\<close>

text \<open>
  Modelled from the spec: \<^verbatim>\<open>taskListID.IsRoot\<close> is not in this file. The root is the
  partition with index 0.
\<close>

definition IsRoot :: "taskListID \<Rightarrow> bool" where
  "IsRoot tid = (partition tid = 0)"

definition isFowardingAllowed :: "taskListID \<Rightarrow> TaskListKind \<Rightarrow> bool" where
  "isFowardingAllowed taskList kind = (\<not> IsRoot taskList \<and> kind \<noteq> TASK_LIST_KIND_STICKY)"

text \<open>
  Modelled from the spec: the forwarder is not in this file. \<^verbatim>\<open>newForwarder\<close> keeps
  the forwarder configuration, the task list and its kind.
\<close>

definition newForwarder :: "forwarderConfig \<Rightarrow> taskListID \<Rightarrow> TaskListKind \<Rightarrow> Forwarder" where
  "newForwarder cfg taskList kind =
     \<lparr> fwdrCfg = cfg, fwdrTaskListID = taskList, fwdrTaskListKind = kind \<rparr>"

text \<open>
  The two atomic values a manager caches lazily: the namespace name and the metric scope
  tagged with it. \<open>metricScopeValue\<close> is \<open>None\<close> as long as nothing was stored in it.
  \<^verbatim>\<open>tryInitNamespaceAndScope\<close> leaves both alone when the name is already known or
  the namespace lookup fails. \<^verbatim>\<open>metricScope\<close> then loads the scope with a type
  assertion, which panics when nothing was ever stored.
\<close>

record scopeCache =
  namespaceValue :: string
  metricScopeValue :: "string option"

datatype 'a outcome = Panics | Returns 'a

definition tryInitNamespaceAndScope :: "world \<Rightarrow> taskListID \<Rightarrow> scopeCache \<Rightarrow> scopeCache" where
  "tryInitNamespaceAndScope w tid v =
     (if namespaceValue v \<noteq> [] then v
      else
        case wGetNamespaceByID w (namespaceID tid) of
          Inl err \<Rightarrow> v
        | Inr entry \<Rightarrow>
            v\<lparr> metricScopeValue := Some (nsName entry), namespaceValue := nsName entry \<rparr>)"

definition metricScope :: "world \<Rightarrow> taskListID \<Rightarrow> scopeCache \<Rightarrow> string outcome \<times> scopeCache" where
  "metricScope w tid v =
     (let v1 = tryInitNamespaceAndScope w tid v
      in case metricScopeValue v1 of
           None \<Rightarrow> (Panics, v1)
         | Some scope \<Rightarrow> (Returns scope, v1))"

text \<open>
  \<^verbatim>\<open>newTaskListManager\<close>: \<open>cfg\<close> is what \<^verbatim>\<open>newTaskListConfig\<close> (not in this file)
  returned, \<open>taskLists\<close> the engine's registry, \<open>w\<close> what the outside world answers
  while the manager is built. After storing the empty namespace name the constructor
  calls \<^verbatim>\<open>metricScope\<close>: when the namespace lookup fails, nothing has been stored in
  \<open>metricScopeValue\<close>, the type assertion panics and no manager is built (the
  comparison with nil that follows is never reached with a nil scope). The matcher is
  represented by the forwarder it was given and by the calls made on it. The cached name
  and scope are not followed past construction: a manager that was built has a scope
  stored, so \<^verbatim>\<open>metricScope\<close> cannot panic later, and it writes these two values only.
\<close>

definition newTaskListManager ::
  "world \<Rightarrow> taskListID set \<Rightarrow> taskListID \<Rightarrow> TaskListKind \<Rightarrow> error + taskListConfig
     \<Rightarrow> (error + taskListManagerImpl) outcome" where
  "newTaskListManager w taskLists taskList kind cfg =
     (case cfg of
        Inl err \<Rightarrow> Returns (Inl err)
      | Inr taskListConfig \<Rightarrow>
          (case metricScope w taskList \<lparr> namespaceValue = [], metricScopeValue = None \<rparr> of
             (Panics, v) \<Rightarrow> Panics
           | (Returns scope, v) \<Rightarrow>
               Returns (Inr
                 \<lparr> taskListID = taskList,
                   taskListKind = kind,
                   config = taskListConfig,
                   fwdr = (if isFowardingAllowed taskList kind
                           then Some (newForwarder (fwdrConfig taskListConfig) taskList kind)
                           else None),
                   outstandingPollsMap = Map.empty,
                   cancelled = [],
                   pollerHistory = [],
                   shutdownChClosed = False,
                   stopped = 0,
                   matcherCalls = [],
                   writerStopped = False,
                   writerBlock = \<lparr> blockStart = 0, blockEnd = 0 \<rparr>,
                   appendTaskCalls = [],
                   createTasksLog = [],
                   readerStopped = False,
                   readerSignals = 0,
                   dbRangeID = 0,
                   ackMgrLevel = 0,
                   ackCompleted = [],
                   gcRuns = [],
                   registry = taskLists,
                   removeCalls = 0,
                   tick = 0 \<rparr>)))"

subsection \<open>Reading the call logs\<close>

fun offeredContext :: "matcherCall \<Rightarrow> childContext option" where
  "offeredContext (Offer cx task) = Some cx"
| "offeredContext call = None"

fun isPoll :: "matcherCall \<Rightarrow> bool" where
  "isPoll (Poll cx) = True"
| "isPoll call = False"

text \<open>A sync-match offer as \<^verbatim>\<open>trySyncMatch\<close> makes it: the payload wrapped with the sentinel id.\<close>

definition sentinelOffer :: "addTaskParams \<Rightarrow> matcherCall \<Rightarrow> bool" where
  "sentinelOffer params call =
     (case call of
        Offer cx task \<Rightarrow>
          TaskId (event task) = syncMatchTaskId \<and> Data (event task) = taskInfo params
          \<and> forSyncMatch task
      | _ \<Rightarrow> False)"

text \<open>
  The sync-match budget in the spec's words: 200 ms, or the context's deadline minus one
  second when that is smaller (and not below zero).
\<close>

definition spec_syncMatchTimeout :: "instant option \<Rightarrow> instant \<Rightarrow> duration" where
  "spec_syncMatchTimeout deadline now =
     (case deadline of
        None \<Rightarrow> 200 * Millisecond
      | Some d \<Rightarrow> min (200 * Millisecond) (max 0 (d - now - Second)))"

text \<open>
  When forwarding is disabled, in the spec's words: the partition is the root, or the
  queue is sticky, or the configured children-per-node degree is exceeded (the last is
  given as a truth value, since the spec does not say how it is computed).
\<close>

definition spec_forwardingDisabled :: "bool \<Rightarrow> taskListID \<Rightarrow> TaskListKind \<Rightarrow> bool" where
  "spec_forwardingDisabled degreeExceeded taskList kind =
     (IsRoot taskList \<or> kind = TASK_LIST_KIND_STICKY \<or> degreeExceeded)"

subsection \<open>Sample inputs\<close>

definition sampleTaskList :: taskListID where
  "sampleTaskList =
     \<lparr> name = ''/_sys/orders/1'', partition = 1, namespaceID = ''ns-1'',
       taskType = TASK_LIST_TYPE_DECISION \<rparr>"

definition sampleConfig :: taskListConfig where
  "sampleConfig =
     \<lparr> RangeSize = 100000, LongPollExpirationInterval = 60 * Second,
       fwdrConfig = \<lparr> ForwarderMaxChildrenPerNode = 20, ForwarderMaxOutstandingPolls = 1,
                      ForwarderMaxOutstandingTasks = 1 \<rparr> \<rparr>"

definition sampleManager :: taskListManagerImpl where
  "sampleManager =
     \<lparr> taskListID = sampleTaskList,
       taskListKind = TASK_LIST_KIND_NORMAL,
       config = sampleConfig,
       fwdr = Some (newForwarder (fwdrConfig sampleConfig) sampleTaskList TASK_LIST_KIND_NORMAL),
       outstandingPollsMap = Map.empty,
       cancelled = [],
       pollerHistory = [],
       shutdownChClosed = False,
       stopped = 0,
       matcherCalls = [],
       writerStopped = False,
       writerBlock = \<lparr> blockStart = 1, blockEnd = 100000 \<rparr>,
       appendTaskCalls = [],
       createTasksLog = [],
       readerStopped = False,
       readerSignals = 0,
       dbRangeID = 1,
       ackMgrLevel = 0,
       ackCompleted = [],
       gcRuns = [],
       registry = {sampleTaskList},
       removeCalls = 0,
       tick = 0 \<rparr>"

definition sampleContext :: Context where
  "sampleContext =
     \<lparr> Deadline = Some (10 * Second), pollerIDValue = Some ''p7'',
       identityValue = Some ''worker-1'' \<rparr>"

definition sampleTaskInfo :: TaskInfo where
  "sampleTaskInfo =
     \<lparr> NamespaceId = ''ns-1'', TaskWorkflowId = ''wf-1'', TaskRunId = ''run-1'', ScheduleId = 5 \<rparr>"

definition sampleParams :: addTaskParams where
  "sampleParams =
     \<lparr> execution = \<lparr> WorkflowId = ''wf-1'', RunId = ''run-1'' \<rparr>,
       taskInfo = sampleTaskInfo,
       source = TASK_SOURCE_HISTORY,
       forwardedFrom = [] \<rparr>"

text \<open>
  A quiet world: the clock reads 0, no context is done, the namespace is active, no poller
  is waiting, the store accepts every write and grants the next range id.
\<close>

definition sampleWorld :: world where
  "sampleWorld =
     \<lparr> wNow = 0,
       wDone = (\<lambda>cx. False),
       wGetNamespaceByID = (\<lambda>nid. Inr \<lparr> nsName = ''orders-ns'', GetNamespaceNotActiveErr = None \<rparr>),
       wOffer = (\<lambda>cx task. (False, None)),
       wPoll = (\<lambda>cx. Inl (OtherError ''no task'')),
       wPollForQuery = (\<lambda>cx. Inl (OtherError ''no query'')),
       wCreateTasks = (\<lambda>tid ti. None),
       wLeaseTaskList = (\<lambda>rid. Inr \<lparr> rangeID = rid + 1, ackLevel = 0 \<rparr>),
       wCompleteTask = (\<lambda>tid. tid),
       wBacklogCountHint = 0,
       wNamespaceName = ''orders-ns'' \<rparr>"

definition sampleEnv :: "world \<Rightarrow> environment" where
  "sampleEnv w = \<lparr> persistenceOperationRetryPolicy = 3, snapshot = (\<lambda>t. w) \<rparr>"

text \<open>
  An environment in which the lease is lost: the store throttles the first write and
  answers the second with a condition-failed error.
\<close>

definition leaseLostEnv :: environment where
  "leaseLostEnv =
     \<lparr> persistenceOperationRetryPolicy = 3,
       snapshot = (\<lambda>t. if t = 0
                        then sampleWorld\<lparr> wCreateTasks := (\<lambda>tid ti. Some (ResourceExhausted ''busy'')) \<rparr>
                        else sampleWorld\<lparr> wCreateTasks :=
                               (\<lambda>tid ti. Some (ConditionFailedError ''range id changed'')) \<rparr>) \<rparr>"

text \<open>An environment in which the namespace is not active on this cluster.\<close>

definition standbyWorld :: world where
  "standbyWorld =
     sampleWorld\<lparr> wGetNamespaceByID :=
       (\<lambda>nid. Inr \<lparr> nsName = ''orders-ns'',
                     GetNamespaceNotActiveErr = Some (NamespaceNotActiveError ''standby'') \<rparr>) \<rparr>"

text \<open>
  An environment in which the store grants range id 2, and a manager whose writer has
  used up the block of range id 1.
\<close>

definition secondLeaseWorld :: world where
  "secondLeaseWorld =
     sampleWorld\<lparr> wLeaseTaskList := (\<lambda>rid. Inr \<lparr> rangeID = 2, ackLevel = 0 \<rparr>) \<rparr>"

definition exhaustedManager :: taskListManagerImpl where
  "exhaustedManager =
     sampleManager\<lparr> writerBlock := \<lparr> blockStart = 100001, blockEnd = 100000 \<rparr> \<rparr>"

subsection \<open>The user-data manager\<close>

text \<open>
  Modelled from the spec: the user-data manager is not among the sources; only its test
  is. The root partition of the workflow queue of normal kind is the authority:
  \<^verbatim>\<open>UpdateUserData\<close> applies the caller's mutator to the current data, writes the
  result through to the durable store, bumps the version and publishes it to the
  subscribers. On any other partition (a non-root normal partition, any activity
  partition, any sticky one) it fails with the fixed error
  \<^verbatim>\<open>errUserDataNoMutateNonRoot\<close>. \<open>updateCalls\<close> counts how often the method ran.
\<close>

datatype TaskQueueType = TASK_QUEUE_TYPE_WORKFLOW | TASK_QUEUE_TYPE_ACTIVITY

record VersionedTaskQueueUserData =
  Version :: int
  UserData :: string

record userDataManagerImpl =
  udTaskType :: TaskQueueType
  udPartitionId :: nat
  udKind :: TaskListKind
  userData :: "VersionedTaskQueueUserData option"
  storedUserData :: "VersionedTaskQueueUserData option"
  published :: "int list"
  mutatorCalls :: nat
  storeUpdates :: nat
  updateCalls :: nat

definition isRootWorkflowNormal :: "userDataManagerImpl \<Rightarrow> bool" where
  "isRootWorkflowNormal m =
     (udPartitionId m = 0 \<and> udTaskType m = TASK_QUEUE_TYPE_WORKFLOW
      \<and> udKind m = TASK_LIST_KIND_NORMAL)"

definition UpdateUserData ::
  "(string option \<Rightarrow> error + string) \<Rightarrow> error option \<Rightarrow> userDataManagerImpl
     \<Rightarrow> error option \<times> userDataManagerImpl" where
  "UpdateUserData mutator storeOutcome m0 =
     (let m = m0\<lparr> updateCalls := updateCalls m0 + 1 \<rparr>
      in if \<not> isRootWorkflowNormal m then (Some errUserDataNoMutateNonRoot, m)
         else
           let m1 = m\<lparr> mutatorCalls := mutatorCalls m + 1 \<rparr>
           in case mutator (map_option UserData (userData m1)) of
                Inl err \<Rightarrow> (Some err, m1)
              | Inr d \<Rightarrow>
                  let v = (case userData m1 of None \<Rightarrow> 0 | Some u \<Rightarrow> Version u) + 1;
                      new = \<lparr> Version = v, UserData = d \<rparr>;
                      m2 = m1\<lparr> storeUpdates := storeUpdates m1 + 1 \<rparr>
                  in case storeOutcome of
                       Some err \<Rightarrow> (Some err, m2)
                     | None \<Rightarrow>
                         (None, m2\<lparr> userData := Some new, storedUserData := Some new,
                                    published := published m2 @ [v] \<rparr>))"

definition sampleUserDataManager :: userDataManagerImpl where
  "sampleUserDataManager =
     \<lparr> udTaskType = TASK_QUEUE_TYPE_WORKFLOW, udPartitionId = 1, udKind = TASK_LIST_KIND_NORMAL,
       userData = Some \<lparr> Version = 1, UserData = ''v1'' \<rparr>,
       storedUserData = None, published = [], mutatorCalls = 0, storeUpdates = 0,
       updateCalls = 0 \<rparr>"

subsection \<open>Relating two states of a manager\<close>

text \<open>
  \<open>sameLogs c c'\<close>: from \<open>c\<close> to \<open>c'\<close> no call was made on the matcher or the writer,
  nothing was sent to the store, the reader was not signalled, and the configuration is
  the same. \<open>staysStopped c c'\<close>: what was stopped in \<open>c\<close> is stopped in \<open>c'\<close>.
\<close>

definition sameLogs :: "taskListManagerImpl \<Rightarrow> taskListManagerImpl \<Rightarrow> bool" where
  "sameLogs c c' =
     (matcherCalls c' = matcherCalls c \<and> appendTaskCalls c' = appendTaskCalls c
      \<and> createTasksLog c' = createTasksLog c \<and> readerSignals c' = readerSignals c
      \<and> config c' = config c \<and> taskListID c' = taskListID c)"

definition staysStopped :: "taskListManagerImpl \<Rightarrow> taskListManagerImpl \<Rightarrow> bool" where
  "staysStopped c c' =
     ((writerStopped c \<longrightarrow> writerStopped c') \<and> (stopped c \<noteq> 0 \<longrightarrow> stopped c' \<noteq> 0))"

text \<open>
  The ranges the proofs about task ids work in: the writer's block starts at 1 or later
  and ends below the greatest \<^verbatim>\<open>int64\<close>, the block size is positive, and every range
  id the store grants is positive and small enough for its block to fit in \<^verbatim>\<open>int64\<close>.
\<close>

definition writerBlockInRange :: "taskListManagerImpl \<Rightarrow> bool" where
  "writerBlockInRange c =
     (1 \<le> RangeSize (config c) \<and> 1 \<le> blockStart (writerBlock c)
      \<and> blockEnd (writerBlock c) \<le> 2 ^ 63 - 2)"

definition leasesInRange :: "environment \<Rightarrow> int \<Rightarrow> bool" where
  "leasesInRange env rangeSize =
     (\<forall>t rid st. wLeaseTaskList (snapshot env t) rid = Inr st \<longrightarrow>
        1 \<le> rangeID st \<and> rangeID st * rangeSize \<le> 2 ^ 63 - 2)"

section \<open>Properties\<close>

subsection \<open>Child contexts\<close>

text \<open>
  Claim C9. When the parent context is already done at the time of the call,
  \<^verbatim>\<open>newChildContext\<close> returns the parent itself and a cancel function that does
  nothing: no child with a shortened deadline is made, whatever the timeout, the tailroom
  and the clock are.
\<close>

theorem newChildContext_parent_done:
  "wDone w parent \<Longrightarrow>
     newChildContext w parent timeout tailroom = (Same parent, NoopCancel)
     \<and> invokeCancel (snd (newChildContext w parent timeout tailroom)) c = c"
  by (simp add: newChildContext_def)

theorem newChildContext_parent_done_witness:
  "wDone (sampleWorld\<lparr> wDone := (\<lambda>cx. True) \<rparr>) sampleContext
   \<and> newChildContext (sampleWorld\<lparr> wDone := (\<lambda>cx. True) \<rparr>) sampleContext
        maxSyncMatchWaitTime Second = (Same sampleContext, NoopCancel)
   \<and> invokeCancel (snd (newChildContext (sampleWorld\<lparr> wDone := (\<lambda>cx. True) \<rparr>) sampleContext
        maxSyncMatchWaitTime Second)) sampleManager = sampleManager"
  using newChildContext_parent_done
    [of "sampleWorld\<lparr> wDone := (\<lambda>cx. True) \<rparr>" sampleContext maxSyncMatchWaitTime Second
        sampleManager]
  by simp

subsection \<open>Cancelling a poller\<close>

text \<open>
  Claim C10. \<^verbatim>\<open>CancelPoller\<close> with a poller id that is not in the outstanding-polls
  map returns the manager as it was: no context is cancelled, the map and every other
  field are unchanged.
\<close>

theorem CancelPoller_absent:
  "outstandingPollsMap c pollerID = None \<Longrightarrow> CancelPoller pollerID c = c"
  by (simp add: CancelPoller_def)

theorem CancelPoller_absent_witness:
  "outstandingPollsMap sampleManager ''p9'' = None
   \<and> CancelPoller ''p9'' sampleManager = sampleManager"
proof -
  have absent: "outstandingPollsMap sampleManager ''p9'' = None"
    by (simp add: sampleManager_def)
  from absent CancelPoller_absent [OF absent] show ?thesis by simp
qed

subsection \<open>Stopping\<close>

lemma Stop_stopped: "stopped (Stop c) \<noteq> 0"
  by (simp add: Stop_def removeTaskListManager_def Let_def)

text \<open>
  Claim C7. \<^verbatim>\<open>Stop\<close> is idempotent. The first call (on a manager whose \<open>stopped\<close>
  flag is 0) sets the flag, closes the shutdown channel, stops the writer and the reader
  and leaves no entry for the manager's task list in the registry; a call on a stopped
  manager changes nothing, so stopping twice is the same as stopping once.
\<close>

theorem Stop_idempotent:
  "Stop (Stop c) = Stop c
   \<and> (stopped c = 0 \<longrightarrow>
        stopped (Stop c) = 1 \<and> shutdownChClosed (Stop c) \<and> writerStopped (Stop c)
        \<and> readerStopped (Stop c) \<and> taskListID c \<notin> registry (Stop c))
   \<and> (stopped c \<noteq> 0 \<longrightarrow> Stop c = c)"
  by (simp add: Stop_def removeTaskListManager_def Let_def)

theorem Stop_idempotent_witness:
  "stopped sampleManager = 0
   \<and> stopped (Stop sampleManager) = 1 \<and> shutdownChClosed (Stop sampleManager)
   \<and> writerStopped (Stop sampleManager) \<and> readerStopped (Stop sampleManager)
   \<and> taskListID sampleManager \<notin> registry (Stop sampleManager)
   \<and> stopped (Stop sampleManager) \<noteq> 0
   \<and> Stop (Stop sampleManager) = Stop sampleManager"
proof -
  have running: "stopped sampleManager = 0"
    by (simp add: sampleManager_def)
  from running Stop_idempotent [of sampleManager] Stop_idempotent [of "Stop sampleManager"]
  show ?thesis by simp
qed

subsection \<open>The budget of a synchronous match\<close>

lemma wrap64_id: "- (2 ^ 63) \<le> x \<Longrightarrow> x < 2 ^ 63 \<Longrightarrow> wrap64 x = x"
  by (simp add: wrap64_def)

lemma invokeCancel_frame [simp]:
  "matcherCalls (invokeCancel k c) = matcherCalls c"
  "appendTaskCalls (invokeCancel k c) = appendTaskCalls c"
  "createTasksLog (invokeCancel k c) = createTasksLog c"
  "writerBlock (invokeCancel k c) = writerBlock c"
  "writerStopped (invokeCancel k c) = writerStopped c"
  "stopped (invokeCancel k c) = stopped c"
  "readerSignals (invokeCancel k c) = readerSignals c"
  "config (invokeCancel k c) = config c"
  "dbRangeID (invokeCancel k c) = dbRangeID c"
  "tick (invokeCancel k c) = tick c"
  "taskListID (invokeCancel k c) = taskListID c"
  by (cases k; simp)+

lemma remaining_timeout:
  assumes "minDuration + Second \<le> d - now"
  shows "(let remaining = wrap64 (time_Sub d now - Second)
          in if remaining < maxSyncMatchWaitTime then MaxInt64 0 remaining else maxSyncMatchWaitTime)
         = min (200 * Millisecond) (max 0 (d - now - Second))"
proof (cases "maxDuration < d - now")
  case True
  then have "time_Sub d now = maxDuration"
    using assms by (simp add: time_Sub_def minDuration_def maxDuration_def Second_def)
  then have "wrap64 (time_Sub d now - Second) = maxDuration - Second"
    by (simp add: wrap64_id maxDuration_def Second_def)
  with True show ?thesis
    by (simp add: Let_def maxSyncMatchWaitTime_def MaxInt64_def maxDuration_def Second_def
          Millisecond_def)
next
  case False
  then have sub: "time_Sub d now = d - now"
    using assms by (simp add: time_Sub_def minDuration_def maxDuration_def Second_def)
  have "wrap64 (d - now - Second) = d - now - Second"
    using assms False by (intro wrap64_id) (simp_all add: minDuration_def maxDuration_def Second_def)
  with sub show ?thesis
    by (simp add: Let_def maxSyncMatchWaitTime_def MaxInt64_def Second_def Millisecond_def)
qed

text \<open>
  Claim C5, as amended. A sync-match attempt offers the task exactly once. When the
  request context is already done, the context passed to \<^verbatim>\<open>Offer\<close> is the request
  context itself, with no timeout of its own. When it is not done, the context passed is
  \<^verbatim>\<open>WithTimeout(ctx, t)\<close> where \<open>t\<close> is 200 ms if the context has no deadline and
  \<open>min (200 ms) (max 0 (deadline - now - 1 s))\<close> if it has one, provided the deadline
  lies less than about 292 years in the past, so that subtracting the second from the
  saturated difference does not wrap around.
\<close>

theorem trySyncMatch_child_timeout:
  "(wDone w ctx \<longrightarrow>
      matcherCalls (snd (trySyncMatch w ctx params c)) =
        matcherCalls c @
          [Offer (Same ctx)
             (newInternalTask \<lparr> Data = taskInfo params, TaskId = syncMatchTaskId \<rparr>
                (source params) (forwardedFrom params) True)])
   \<and> (\<not> wDone w ctx \<and> (\<forall>d. Deadline ctx = Some d \<longrightarrow> minDuration + Second \<le> d - wNow w) \<longrightarrow>
      matcherCalls (snd (trySyncMatch w ctx params c)) =
        matcherCalls c @
          [Offer (WithTimeout ctx (spec_syncMatchTimeout (Deadline ctx) (wNow w)))
             (newInternalTask \<lparr> Data = taskInfo params, TaskId = syncMatchTaskId \<rparr>
                (source params) (forwardedFrom params) True)])"
proof (intro conjI impI)
  assume "wDone w ctx"
  then show "matcherCalls (snd (trySyncMatch w ctx params c)) =
        matcherCalls c @
          [Offer (Same ctx)
             (newInternalTask \<lparr> Data = taskInfo params, TaskId = syncMatchTaskId \<rparr>
                (source params) (forwardedFrom params) True)]"
    by (simp add: trySyncMatch_def newChildContext_def matcher_Offer_def Let_def)
next
  assume h: "\<not> wDone w ctx \<and> (\<forall>d. Deadline ctx = Some d \<longrightarrow> minDuration + Second \<le> d - wNow w)"
  have "fst (newChildContext w ctx maxSyncMatchWaitTime Second)
          = WithTimeout ctx (spec_syncMatchTimeout (Deadline ctx) (wNow w))"
  proof (cases "Deadline ctx")
    case None
    with h show ?thesis
      by (simp add: newChildContext_def spec_syncMatchTimeout_def maxSyncMatchWaitTime_def)
  next
    case (Some d)
    with h have "minDuration + Second \<le> d - wNow w" by simp
    from remaining_timeout [OF this] Some h show ?thesis
      by (simp add: newChildContext_def spec_syncMatchTimeout_def Let_def)
  qed
  then show "matcherCalls (snd (trySyncMatch w ctx params c)) =
        matcherCalls c @
          [Offer (WithTimeout ctx (spec_syncMatchTimeout (Deadline ctx) (wNow w)))
             (newInternalTask \<lparr> Data = taskInfo params, TaskId = syncMatchTaskId \<rparr>
                (source params) (forwardedFrom params) True)]"
    by (cases "newChildContext w ctx maxSyncMatchWaitTime Second")
       (simp add: trySyncMatch_def matcher_Offer_def Let_def)
qed

theorem trySyncMatch_child_timeout_witness:
  "\<not> wDone sampleWorld (sampleContext\<lparr> Deadline := Some (Second + 100 * Millisecond) \<rparr>)
   \<and> minDuration + Second \<le> (Second + 100 * Millisecond) - wNow sampleWorld
   \<and> matcherCalls (snd (trySyncMatch sampleWorld
         (sampleContext\<lparr> Deadline := Some (Second + 100 * Millisecond) \<rparr>) sampleParams sampleManager)) =
       [Offer (WithTimeout (sampleContext\<lparr> Deadline := Some (Second + 100 * Millisecond) \<rparr>)
                 (100 * Millisecond))
          (newInternalTask \<lparr> Data = sampleTaskInfo, TaskId = - 137 \<rparr> TASK_SOURCE_HISTORY [] True)]
   \<and> wDone (sampleWorld\<lparr> wDone := (\<lambda>cx. True) \<rparr>) sampleContext
   \<and> matcherCalls (snd (trySyncMatch (sampleWorld\<lparr> wDone := (\<lambda>cx. True) \<rparr>)
         sampleContext sampleParams sampleManager)) =
       [Offer (Same sampleContext)
          (newInternalTask \<lparr> Data = sampleTaskInfo, TaskId = - 137 \<rparr> TASK_SOURCE_HISTORY [] True)]"
  using trySyncMatch_child_timeout
     [of sampleWorld "sampleContext\<lparr> Deadline := Some (Second + 100 * Millisecond) \<rparr>"
         sampleParams sampleManager]
    trySyncMatch_child_timeout
     [of "sampleWorld\<lparr> wDone := (\<lambda>cx. True) \<rparr>" sampleContext sampleParams sampleManager]
  by (simp add: sampleWorld_def sampleParams_def sampleManager_def spec_syncMatchTimeout_def
        minDuration_def Second_def Millisecond_def syncMatchTaskId_def)

text \<open>
  The claim as first stated, with no condition on the parent, fails when the parent is
  already done: the deadline is ten seconds ahead, so the stated budget is 200 ms, but
  the context offered is the parent itself.
\<close>

theorem trySyncMatch_done_parent_counterexample:
  "map offeredContext
     (matcherCalls (snd (trySyncMatch (sampleWorld\<lparr> wDone := (\<lambda>cx. True) \<rparr>)
        sampleContext sampleParams sampleManager))) = [Some (Same sampleContext)]
   \<and> Same sampleContext \<noteq>
       WithTimeout sampleContext
         (spec_syncMatchTimeout (Deadline sampleContext) (wNow (sampleWorld\<lparr> wDone := (\<lambda>cx. True) \<rparr>)))"
  by (simp add: trySyncMatch_def newChildContext_def matcher_Offer_def Let_def sampleManager_def)

subsection \<open>Attaching the forwarder\<close>

text \<open>
  Claim C6, as amended. Every manager that \<^verbatim>\<open>newTaskListManager\<close> builds has no
  forwarder exactly when its partition is the root or its queue kind is sticky; for every
  other partition it has the forwarder created from the forwarder configuration,
  whatever the configured children-per-node degree is. A manager is built whenever the
  task list configuration was obtained and the namespace lookup succeeds.
\<close>

theorem newTaskListManager_forwarder:
  "(newTaskListManager w taskLists taskList kind cfg = Returns (Inr m) \<longrightarrow>
      (fwdr m = None \<longleftrightarrow> IsRoot taskList \<or> kind = TASK_LIST_KIND_STICKY)
      \<and> (\<not> IsRoot taskList \<and> kind \<noteq> TASK_LIST_KIND_STICKY \<longrightarrow>
           (\<exists>taskListConfig. cfg = Inr taskListConfig
              \<and> fwdr m = Some (newForwarder (fwdrConfig taskListConfig) taskList kind))))
   \<and> (cfg = Inr tlc \<and> wGetNamespaceByID w (namespaceID taskList) = Inr entry \<longrightarrow>
        (\<exists>built. newTaskListManager w taskLists taskList kind cfg = Returns (Inr built)))"
  by (auto simp: newTaskListManager_def metricScope_def tryInitNamespaceAndScope_def
        isFowardingAllowed_def Let_def
      split: sum.splits prod.splits option.splits outcome.splits)

theorem newTaskListManager_forwarder_witness:
  "\<not> IsRoot sampleTaskList \<and> TASK_LIST_KIND_NORMAL \<noteq> TASK_LIST_KIND_STICKY
   \<and> wGetNamespaceByID sampleWorld (namespaceID sampleTaskList)
       = Inr \<lparr> nsName = ''orders-ns'', GetNamespaceNotActiveErr = None \<rparr>
   \<and> (\<exists>m. newTaskListManager sampleWorld {} sampleTaskList TASK_LIST_KIND_NORMAL (Inr sampleConfig)
            = Returns (Inr m)
          \<and> fwdr m = Some (newForwarder (fwdrConfig sampleConfig) sampleTaskList TASK_LIST_KIND_NORMAL))"
proof -
  have nonroot: "\<not> IsRoot sampleTaskList"
    by (simp add: IsRoot_def sampleTaskList_def)
  have found: "wGetNamespaceByID sampleWorld (namespaceID sampleTaskList)
                 = Inr \<lparr> nsName = ''orders-ns'', GetNamespaceNotActiveErr = None \<rparr>"
    by (simp add: sampleWorld_def)
  from newTaskListManager_forwarder
         [of sampleWorld "{}" sampleTaskList TASK_LIST_KIND_NORMAL "Inr sampleConfig" _ sampleConfig
             "\<lparr> nsName = ''orders-ns'', GetNamespaceNotActiveErr = None \<rparr>"]
       found
  obtain built where
    b: "newTaskListManager sampleWorld {} sampleTaskList TASK_LIST_KIND_NORMAL (Inr sampleConfig)
          = Returns (Inr built)"
    by auto
  from newTaskListManager_forwarder
         [of sampleWorld "{}" sampleTaskList TASK_LIST_KIND_NORMAL "Inr sampleConfig" built]
       b nonroot
  have "fwdr built = Some (newForwarder (fwdrConfig sampleConfig) sampleTaskList TASK_LIST_KIND_NORMAL)"
    by auto
  with b nonroot found show ?thesis by auto
qed

text \<open>
  The claim as first stated fails twice. It also disables forwarding when the configured
  children-per-node degree is exceeded: yet the manager of partition 1, of normal kind,
  built with degree 0, under which no partition may have a child, gets a forwarder all
  the same. And it promises a forwarder in all other cases: yet for the same partition
  with degree 20, when the namespace lookup fails, the constructor panics and neither a
  manager nor a forwarder is made.
\<close>

theorem forwarder_attached_degree_counterexample:
  "map_outcome (map_sum id fwdr)
     (newTaskListManager sampleWorld {} sampleTaskList TASK_LIST_KIND_NORMAL
        (Inr (sampleConfig\<lparr> fwdrConfig := (fwdrConfig sampleConfig)\<lparr> ForwarderMaxChildrenPerNode := 0 \<rparr> \<rparr>)))
     = Returns (Inr (Some (newForwarder ((fwdrConfig sampleConfig)\<lparr> ForwarderMaxChildrenPerNode := 0 \<rparr>)
                    sampleTaskList TASK_LIST_KIND_NORMAL)))
   \<and> spec_forwardingDisabled
        (ForwarderMaxChildrenPerNode
           (fwdrConfig (sampleConfig\<lparr> fwdrConfig := (fwdrConfig sampleConfig)\<lparr> ForwarderMaxChildrenPerNode := 0 \<rparr> \<rparr>))
          < int (partition sampleTaskList))
        sampleTaskList TASK_LIST_KIND_NORMAL
   \<and> newTaskListManager
        (sampleWorld\<lparr> wGetNamespaceByID := (\<lambda>nid. Inl (OtherError ''namespace not found'')) \<rparr>)
        {} sampleTaskList TASK_LIST_KIND_NORMAL (Inr sampleConfig) = Panics
   \<and> \<not> spec_forwardingDisabled
          (ForwarderMaxChildrenPerNode (fwdrConfig sampleConfig) < int (partition sampleTaskList))
          sampleTaskList TASK_LIST_KIND_NORMAL"
  by (simp add: newTaskListManager_def metricScope_def tryInitNamespaceAndScope_def
        isFowardingAllowed_def IsRoot_def sampleTaskList_def sampleWorld_def sampleConfig_def
        spec_forwardingDisabled_def Let_def)

subsection \<open>Retrying: general facts\<close>

lemma Retry_0: "Retry 0 operation isRetryable s = operation s"
  by (simp split: prod.splits option.splits)

lemma Retry_establishes:
  assumes step: "\<And>s. P s \<Longrightarrow> Q (operation s)"
      and weaken: "\<And>e s. Q (e, s) \<Longrightarrow> P s"
      and init: "P s"
  shows "Q (Retry n operation isRetryable s)"
  using init
proof (induction n arbitrary: s)
  case 0
  with step show ?case by (simp only: Retry_0)
next
  case (Suc n)
  obtain e s' where run: "operation s = (e, s')" by (cases "operation s")
  from step [OF Suc.prems] run have q: "Q (e, s')" by simp
  show ?case
  proof (cases e)
    case None
    with run q show ?thesis by simp
  next
    case (Some err)
    show ?thesis
    proof (cases "isRetryable err")
      case True
      from weaken [OF q] have "P s'" .
      from Suc.IH [OF this] run Some True show ?thesis by simp
    next
      case False
      with run Some q show ?thesis by simp
    qed
  qed
qed

lemma Retry_stops:
  "operation s = (Some err, s') \<Longrightarrow> \<not> isRetryable err \<Longrightarrow>
     Retry n operation isRetryable s = (Some err, s')"
  by (cases n) simp_all

lemma Retry_succeeds:
  "operation s = (None, s') \<Longrightarrow> Retry n operation isRetryable s = (None, s')"
  by (cases n) simp_all

lemma Retry_again:
  "operation s = (Some err, s') \<Longrightarrow> isRetryable err \<Longrightarrow>
     Retry (Suc n) operation isRetryable s = Retry n operation isRetryable s'"
  by simp

subsection \<open>What the lease path and the writer leave alone\<close>

lemma sameLogs_refl [simp]: "sameLogs c c"
  by (simp add: sameLogs_def)

lemma sameLogs_trans: "sameLogs a b \<Longrightarrow> sameLogs b c \<Longrightarrow> sameLogs a c"
  by (simp add: sameLogs_def)

lemma staysStopped_refl [simp]: "staysStopped c c"
  by (simp add: staysStopped_def)

lemma staysStopped_trans: "staysStopped a b \<Longrightarrow> staysStopped b c \<Longrightarrow> staysStopped a c"
  by (simp add: staysStopped_def)

lemma Stop_sameLogs: "sameLogs c (Stop c)"
  by (simp add: sameLogs_def Stop_def removeTaskListManager_def Let_def)

lemma Stop_staysStopped: "staysStopped c (Stop c)"
  by (simp add: staysStopped_def Stop_def removeTaskListManager_def Let_def)

lemma Stop_writerBlock [simp]: "writerBlock (Stop c) = writerBlock c"
  by (simp add: Stop_def removeTaskListManager_def Let_def)

lemma unloadTaskList_sameLogs: "sameLogs c (unloadTaskList c)"
  using Stop_sameLogs [of "c\<lparr> registry := registry c - {taskListID c} \<rparr>"]
  by (simp add: unloadTaskList_def sameLogs_def)

lemma unloadTaskList_staysStopped: "staysStopped c (unloadTaskList c)"
  using Stop_staysStopped [of "c\<lparr> registry := registry c - {taskListID c} \<rparr>"]
  by (simp add: unloadTaskList_def staysStopped_def)

lemma unloadTaskList_writerBlock [simp]: "writerBlock (unloadTaskList c) = writerBlock c"
  by (simp add: unloadTaskList_def)

lemma db_RenewLease_sameLogs: "sameLogs c (snd (db_RenewLease env c))"
  by (simp add: db_RenewLease_def sameLogs_def Let_def split: sum.splits)

lemma db_RenewLease_staysStopped: "staysStopped c (snd (db_RenewLease env c))"
  by (simp add: db_RenewLease_def staysStopped_def Let_def split: sum.splits)

lemma db_RenewLease_writerBlock [simp]: "writerBlock (snd (db_RenewLease env c)) = writerBlock c"
  by (simp add: db_RenewLease_def Let_def split: sum.splits)

lemma renewLeaseWithRetry_frame:
  "sameLogs c (snd (renewLeaseWithRetry env c))
   \<and> staysStopped c (snd (renewLeaseWithRetry env c))
   \<and> writerBlock (snd (renewLeaseWithRetry env c)) = writerBlock c"
proof -
  let ?op = "\<lambda>(newState :: taskListState, c0).
                  case db_RenewLease env c0 of ((st, err), c1) \<Rightarrow> (err, (st, c1))"
  let ?P = "\<lambda>s :: taskListState \<times> taskListManagerImpl.
              sameLogs c (snd s) \<and> staysStopped c (snd s) \<and> writerBlock (snd s) = writerBlock c"
  have step: "\<And>s. ?P s \<Longrightarrow> ?P (snd (?op s))"
  proof -
    fix s :: "taskListState \<times> taskListManagerImpl"
    assume p: "?P s"
    obtain st0 c0 where s: "s = (st0, c0)" by (cases s)
    obtain st err c1 where r: "db_RenewLease env c0 = ((st, err), c1)"
      by (cases "db_RenewLease env c0") auto
    from db_RenewLease_sameLogs [of c0 env] db_RenewLease_staysStopped [of c0 env]
      db_RenewLease_writerBlock [of env c0] r
    have "sameLogs c0 c1" "staysStopped c0 c1" "writerBlock c1 = writerBlock c0" by simp_all
    with p s r show "?P (snd (?op s))"
      by (auto intro: sameLogs_trans staysStopped_trans)
  qed
  have "?P (snd (Retry (persistenceOperationRetryPolicy env) ?op IsPersistenceTransientError
                  (\<lparr> rangeID = 0, ackLevel = 0 \<rparr>, c)))"
    by (rule Retry_establishes [where P = ?P and Q = "\<lambda>r. ?P (snd r)"])
       (use step in auto)
  then show ?thesis
    using unloadTaskList_sameLogs unloadTaskList_staysStopped
    by (auto simp: renewLeaseWithRetry_def split: prod.splits option.splits
             intro: sameLogs_trans staysStopped_trans)
qed


lemma allocTaskIDBlock_frame:
  "sameLogs c (snd (allocTaskIDBlock env e c))
   \<and> staysStopped c (snd (allocTaskIDBlock env e c))
   \<and> writerBlock (snd (allocTaskIDBlock env e c)) = writerBlock c"
  using renewLeaseWithRetry_frame [of c env]
  by (auto simp: allocTaskIDBlock_def Let_def split: prod.splits option.splits)

lemma allocTaskID_frame:
  "sameLogs c (snd (allocTaskID env c)) \<and> staysStopped c (snd (allocTaskID env c))"
  using allocTaskIDBlock_frame [of c env "blockEnd (writerBlock c)"]
  by (auto simp: allocTaskID_def Let_def sameLogs_def staysStopped_def
           split: prod.splits option.splits)

lemma appendTask_stopped:
  "writerStopped c \<Longrightarrow>
     appendTask env w c exe ti =
       ((None, Some errShutdown), c\<lparr> appendTaskCalls := appendTaskCalls c @ [(exe, ti)] \<rparr>)"
  by (simp add: appendTask_def Let_def)

lemma appendTask_frame:
  "matcherCalls (snd (appendTask env w c exe ti)) = matcherCalls c
   \<and> appendTaskCalls (snd (appendTask env w c exe ti)) = appendTaskCalls c @ [(exe, ti)]
   \<and> readerSignals (snd (appendTask env w c exe ti)) = readerSignals c
   \<and> config (snd (appendTask env w c exe ti)) = config c
   \<and> taskListID (snd (appendTask env w c exe ti)) = taskListID c
   \<and> staysStopped c (snd (appendTask env w c exe ti))"
  using allocTaskID_frame [of "c\<lparr> appendTaskCalls := appendTaskCalls c @ [(exe, ti)] \<rparr>" env]
  by (auto simp: appendTask_def Let_def sameLogs_def staysStopped_def
           split: prod.splits option.splits)

lemma appendTask_log:
  "createTasksLog (snd (appendTask env w c exe ti)) = createTasksLog c
   \<or> (\<exists>tid. createTasksLog (snd (appendTask env w c exe ti)) =
              createTasksLog c @ [(tid, ti, snd (fst (appendTask env w c exe ti)))])"
  using allocTaskID_frame [of "c\<lparr> appendTaskCalls := appendTaskCalls c @ [(exe, ti)] \<rparr>" env]
  by (auto simp: appendTask_def Let_def sameLogs_def split: prod.splits option.splits)

lemma appendTask_log_ok:
  "snd (fst (appendTask env w c exe ti)) = None \<Longrightarrow>
     \<exists>tid. createTasksLog (snd (appendTask env w c exe ti)) = createTasksLog c @ [(tid, ti, None)]"
  using allocTaskID_frame [of "c\<lparr> appendTaskCalls := appendTaskCalls c @ [(exe, ti)] \<rparr>" env]
  by (auto simp: appendTask_def Let_def sameLogs_def split: prod.splits option.splits if_splits)

lemma trySyncMatch_frame:
  "appendTaskCalls (snd (trySyncMatch w ctx params c)) = appendTaskCalls c
   \<and> createTasksLog (snd (trySyncMatch w ctx params c)) = createTasksLog c
   \<and> readerSignals (snd (trySyncMatch w ctx params c)) = readerSignals c
   \<and> writerBlock (snd (trySyncMatch w ctx params c)) = writerBlock c
   \<and> writerStopped (snd (trySyncMatch w ctx params c)) = writerStopped c
   \<and> stopped (snd (trySyncMatch w ctx params c)) = stopped c
   \<and> config (snd (trySyncMatch w ctx params c)) = config c"
  by (simp add: trySyncMatch_def matcher_Offer_def Let_def split: prod.splits)

lemma trySyncMatch_offer:
  "\<exists>cx task. matcherCalls (snd (trySyncMatch w ctx params c)) = matcherCalls c @ [Offer cx task]
      \<and> sentinelOffer params (Offer cx task)"
  by (simp add: trySyncMatch_def matcher_Offer_def Let_def sentinelOffer_def newInternalTask_def
        split: prod.splits)


subsection \<open>\<^verbatim>\<open>AddTask\<close> for a task forwarded from a child partition\<close>





subsection \<open>A condition-failed error stops the manager\<close>

lemma Retry_until:
  fixes operation :: "'s \<Rightarrow> ('r option \<times> error option) \<times> 's"
  assumes "k \<le> n"
      and "\<forall>j<k. \<exists>r e. fst (operation (stateBefore operation j s)) = (r, Some e) \<and> isRetryable e"
      and "operation (stateBefore operation k s) = ((r, Some e), s1)"
      and "\<not> isRetryable e"
  shows "Retry n (capturing operation) isRetryable (held, s) = (Some e, (r, s1))"
  using assms
proof (induction k arbitrary: n s held)
  case 0
  from 0 have "capturing operation (held, s) = (Some e, (r, s1))"
    by (simp add: capturing_def)
  from Retry_stops [where operation = "capturing operation" and isRetryable = isRetryable
         and s = "(held, s)" and err = e and s' = "(r, s1)", OF this \<open>\<not> isRetryable e\<close>]
  show ?case .
next
  case (Suc k)
  from Suc.prems(1) obtain n' where n: "n = Suc n'" "k \<le> n'" by (cases n) auto
  from Suc.prems(2) have "\<exists>r e. fst (operation (stateBefore operation 0 s)) = (r, Some e) \<and> isRetryable e"
    by blast
  then obtain r0 e0 where first: "fst (operation s) = (r0, Some e0)" "isRetryable e0" by auto
  then have run: "capturing operation (held, s) = (Some e0, (r0, snd (operation s)))"
    by (cases "operation s") (auto simp: capturing_def)
  have earlier: "\<forall>j<k. \<exists>r e. fst (operation (stateBefore operation j (snd (operation s)))) = (r, Some e)
                    \<and> isRetryable e"
  proof (intro allI impI)
    fix j assume "j < k"
    then have "Suc j < Suc k" by simp
    with Suc.prems(2) have "\<exists>r e. fst (operation (stateBefore operation (Suc j) s)) = (r, Some e) \<and> isRetryable e"
      by blast
    then show "\<exists>r e. fst (operation (stateBefore operation j (snd (operation s)))) = (r, Some e)
                    \<and> isRetryable e" by simp
  qed
  from Suc.prems(3) have last: "operation (stateBefore operation k (snd (operation s))) = ((r, Some e), s1)"
    by simp
  from Suc.IH [OF n(2) earlier last Suc.prems(4), of r0]
  have "Retry n' (capturing operation) isRetryable (r0, snd (operation s)) = (Some e, (r, s1))" .
  with Retry_again [where operation = "capturing operation" and isRetryable = isRetryable
         and s = "(held, s)" and err = e0 and s' = "(r0, snd (operation s))" and n = n',
         OF run first(2)] n
  show ?case by simp
qed

lemma addTaskOperation_writer_stopped:
  assumes "writerStopped c"
  shows "writerStopped (snd (snd (addTaskOperation env ctx params (x, c))))
         \<and> createTasksLog (snd (snd (addTaskOperation env ctx params (x, c)))) = createTasksLog c"
proof -
  let ?w = "snapshot env (tick c)"
  let ?c = "c\<lparr> tick := tick c + 1 \<rparr>"
  have s0: "writerStopped ?c" using assms by simp
  have s1: "writerStopped (snd (trySyncMatch ?w ctx params ?c))"
    using trySyncMatch_frame [of ?w ctx params ?c] assms by simp
  have l1: "createTasksLog (snd (trySyncMatch ?w ctx params ?c)) = createTasksLog c"
    using trySyncMatch_frame [of ?w ctx params ?c] by simp
  show ?thesis
    using s0 s1 l1
    by (auto simp: addTaskOperation_def Let_def appendTask_stopped
             split: sum.splits prod.splits)
qed

lemma Stop_frame [simp]:
  "matcherCalls (Stop c) = matcherCalls c"
  "appendTaskCalls (Stop c) = appendTaskCalls c"
  "createTasksLog (Stop c) = createTasksLog c"
  "readerSignals (Stop c) = readerSignals c"
  "config (Stop c) = config c"
  "taskListID (Stop c) = taskListID c"
  using Stop_sameLogs [of c] by (simp_all add: sameLogs_def)

lemma Stop_writerStopped: "stopped c \<noteq> 0 \<longrightarrow> writerStopped c \<Longrightarrow> writerStopped (Stop c)"
  by (simp add: Stop_def removeTaskListManager_def Let_def)

lemma Stop_keeps_writerStopped: "writerStopped c \<Longrightarrow> writerStopped (Stop c)"
  using Stop_staysStopped [of c] by (simp add: staysStopped_def)

lemma taskReader_Signal_frame [simp]:
  "matcherCalls (taskReader_Signal c) = matcherCalls c"
  "appendTaskCalls (taskReader_Signal c) = appendTaskCalls c"
  "createTasksLog (taskReader_Signal c) = createTasksLog c"
  "writerStopped (taskReader_Signal c) = writerStopped c"
  "config (taskReader_Signal c) = config c"
  "writerBlock (taskReader_Signal c) = writerBlock c"
  by (simp_all add: taskReader_Signal_def)

lemma AddTask_writer_stopped:
  assumes "writerStopped c"
  shows "createTasksLog (snd (AddTask env ctx params c)) = createTasksLog c"
proof -
  let ?op = "capturing (addTaskOperation env ctx params) :: unit option \<times> bool \<times> taskListManagerImpl \<Rightarrow> _"
  let ?P = "\<lambda>s :: unit option \<times> bool \<times> taskListManagerImpl.
              writerStopped (snd (snd s)) \<and> createTasksLog (snd (snd s)) = createTasksLog c"
  have step: "\<And>s. ?P s \<Longrightarrow> ?P (snd (?op s))"
  proof -
    fix s :: "unit option \<times> bool \<times> taskListManagerImpl"
    assume p: "?P s"
    obtain res x c0 where s: "s = (res, x, c0)" by (cases s)
    from p s addTaskOperation_writer_stopped [of c0 env ctx params x]
    show "?P (snd (?op s))" by (auto simp: capturing_def split: prod.splits)
  qed
  have "?P (snd (Retry (persistenceOperationRetryPolicy env) ?op retryUnlessConditionFailed
                  (None, (False, c))))"
    by (rule Retry_establishes [where P = ?P and Q = "\<lambda>r. ?P (snd r)"])
       (use step assms in auto)
  then show ?thesis
    by (auto simp: AddTask_def executeWithRetry_def split: prod.splits)
qed

text \<open>
  Claim C3. An operation is run through \<^verbatim>\<open>executeWithRetry\<close>; its first \<open>k\<close> runs
  fail with retryable errors (\<open>k\<close> within the retry budget) and the next one returns a
  condition-failed error. Then the operation is not run again: \<^verbatim>\<open>executeWithRetry\<close>
  returns that error and the result of that run, and the manager it returns is the one
  the failing run left, stopped by \<^verbatim>\<open>Stop\<close>. From then on the writer is stopped:
  \<^verbatim>\<open>appendTask\<close> answers \<^verbatim>\<open>errShutdown\<close> and neither it nor a later
  \<^verbatim>\<open>AddTask\<close> sends a write to the store. (The last hypothesis says that a manager
  whose \<open>stopped\<close> flag is set has a stopped writer, as \<^verbatim>\<open>Stop\<close> leaves it.)
\<close>

theorem executeWithRetry_condition_failed:
  assumes budget: "k \<le> persistenceOperationRetryPolicy env"
      and earlier: "\<forall>j<k. \<exists>r e. fst (operation (stateBefore operation j xc)) = (r, Some e)
                      \<and> \<not> isConditionFailedError (Some e) \<and> IsPersistenceTransientError e"
      and failed: "operation (stateBefore operation k xc) = ((r, Some (ConditionFailedError m)), (x1, c1))"
      and consistent: "stopped c1 \<noteq> 0 \<longrightarrow> writerStopped c1"
  shows "executeWithRetry env operation xc = ((r, Some (ConditionFailedError m)), (x1, Stop c1))
         \<and> stopped (Stop c1) \<noteq> 0 \<and> writerStopped (Stop c1)
         \<and> fst (appendTask env' w (Stop c1) exe ti) = (None, Some errShutdown)
         \<and> createTasksLog (snd (appendTask env' w (Stop c1) exe ti)) = createTasksLog c1
         \<and> createTasksLog (snd (AddTask env' ctx params (Stop c1))) = createTasksLog c1"
proof -
  have retr: "\<And>e. \<not> isConditionFailedError (Some e) \<Longrightarrow> IsPersistenceTransientError e
                  \<Longrightarrow> retryUnlessConditionFailed e"
    by (simp add: retryUnlessConditionFailed_def)
  from earlier have e: "\<forall>j<k. \<exists>r e. fst (operation (stateBefore operation j xc)) = (r, Some e)
                      \<and> retryUnlessConditionFailed e"
    using retr by blast
  have nr: "\<not> retryUnlessConditionFailed (ConditionFailedError m)"
    by (simp add: retryUnlessConditionFailed_def)
  from Retry_until [OF budget e failed nr, of None]
  have run: "executeWithRetry env operation xc = ((r, Some (ConditionFailedError m)), (x1, Stop c1))"
    by (simp add: executeWithRetry_def)
  have ws: "writerStopped (Stop c1)" using consistent by (rule Stop_writerStopped)
  from run ws Stop_stopped [of c1] AddTask_writer_stopped [OF ws, of env' ctx params]
  show ?thesis by (simp add: appendTask_stopped)
qed

lemmas run_defs =
  addTaskOperation_def appendTask_def allocTaskID_def trySyncMatch_def newChildContext_def
  matcher_Offer_def newInternalTask_def Let_def time_Sub_def wrap64_def MaxInt64_def
  maxSyncMatchWaitTime_def Second_def Millisecond_def minDuration_def maxDuration_def
  sampleManager_def sampleWorld_def sampleParams_def sampleContext_def sampleConfig_def
  sampleTaskInfo_def

theorem executeWithRetry_condition_failed_witness:
  "1 \<le> persistenceOperationRetryPolicy leaseLostEnv
   \<and> fst (addTaskOperation leaseLostEnv sampleContext sampleParams (False, sampleManager))
       = (None, Some (ResourceExhausted ''busy''))
   \<and> fst (addTaskOperation leaseLostEnv sampleContext sampleParams
            (snd (addTaskOperation leaseLostEnv sampleContext sampleParams (False, sampleManager))))
       = (None, Some (ConditionFailedError ''range id changed''))
   \<and> stopped (snd (snd (addTaskOperation leaseLostEnv sampleContext sampleParams
            (snd (addTaskOperation leaseLostEnv sampleContext sampleParams (False, sampleManager)))))) = 0
   \<and> fst (executeWithRetry leaseLostEnv (addTaskOperation leaseLostEnv sampleContext sampleParams)
            (False, sampleManager))
       = (None, Some (ConditionFailedError ''range id changed''))
   \<and> stopped (snd (snd (executeWithRetry leaseLostEnv
            (addTaskOperation leaseLostEnv sampleContext sampleParams) (False, sampleManager)))) \<noteq> 0
   \<and> writerStopped (snd (snd (executeWithRetry leaseLostEnv
            (addTaskOperation leaseLostEnv sampleContext sampleParams) (False, sampleManager))))
   \<and> map fst (createTasksLog (snd (AddTask (sampleEnv sampleWorld) sampleContext sampleParams
        (snd (snd (executeWithRetry leaseLostEnv
            (addTaskOperation leaseLostEnv sampleContext sampleParams) (False, sampleManager)))))))
       = [1, 2]"
proof -
  let ?op = "addTaskOperation leaseLostEnv sampleContext sampleParams"
  let ?s1 = "snd (?op (False, sampleManager))"
  let ?c2 = "snd (snd (?op ?s1))"
  have budget: "1 \<le> persistenceOperationRetryPolicy leaseLostEnv"
    by (simp add: leaseLostEnv_def)
  have first: "fst (?op (False, sampleManager)) = (None, Some (ResourceExhausted ''busy''))"
    by (simp add: run_defs leaseLostEnv_def)
  have tick1: "tick (snd ?s1) = 1"
    by (simp add: run_defs leaseLostEnv_def)
  have s1: "?s1 = (False, snd ?s1)"
    by (simp add: run_defs leaseLostEnv_def)
  have blk: "writerBlock (snd ?s1) = \<lparr> blockStart = 2, blockEnd = 100000 \<rparr>"
       "writerStopped (snd ?s1) = False" "stopped (snd ?s1) = 0"
       "map fst (createTasksLog (snd ?s1)) = [1]"
    by (simp_all add: run_defs leaseLostEnv_def)
  have second: "fst (?op ?s1) = (None, Some (ConditionFailedError ''range id changed''))"
    by (simp add: run_defs leaseLostEnv_def)
  have x2: "fst (snd (?op ?s1)) = False"
    by (simp add: run_defs leaseLostEnv_def)
  have running: "stopped ?c2 = 0"
    by (simp add: run_defs leaseLostEnv_def)
  have log2: "map fst (createTasksLog ?c2) = [1, 2]"
    by (simp add: run_defs leaseLostEnv_def)
  have earlier: "\<forall>j<1. \<exists>r e. fst (?op (stateBefore ?op j (False, sampleManager))) = (r, Some e)
                   \<and> \<not> isConditionFailedError (Some e) \<and> IsPersistenceTransientError e"
    using first by simp
  have failed: "?op (stateBefore ?op 1 (False, sampleManager))
                  = ((None, Some (ConditionFailedError ''range id changed'')), (False, ?c2))"
    using second x2 by (simp add: prod_eq_iff)
  have consistent: "stopped ?c2 \<noteq> 0 \<longrightarrow> writerStopped ?c2"
    using running by simp
  from executeWithRetry_condition_failed
         [OF budget earlier failed consistent,
          of "sampleEnv sampleWorld" sampleWorld "execution sampleParams" sampleTaskInfo
             sampleContext sampleParams]
       budget first second running log2
  show ?thesis by simp
qed

subsection \<open>A namespace that is not active\<close>

lemma addTaskOperation_not_active:
  assumes "wGetNamespaceByID (snapshot env (tick c)) (NamespaceId (taskInfo params)) = Inr ns"
      and "GetNamespaceNotActiveErr ns = Some e"
  shows "addTaskOperation env ctx params (x, c) =
           (fst (appendTask env (snapshot env (tick c)) (c\<lparr> tick := tick c + 1 \<rparr>)
                   (execution params) (taskInfo params)),
            (False, snd (appendTask env (snapshot env (tick c)) (c\<lparr> tick := tick c + 1 \<rparr>)
                   (execution params) (taskInfo params))))"
  using assms by (simp add: addTaskOperation_def Let_def split: prod.splits)

lemma getTask_not_active:
  assumes "wGetNamespaceByID (snapshot env (tick c)) (namespaceID (taskListID c)) = Inr ns"
      and "GetNamespaceNotActiveErr ns = Some e"
  shows "matcherCalls (snd (getTask env ctx rate c)) =
           matcherCalls c @
             [UpdateRatelimit rate,
              PollForQuery (fst (newChildContext (snapshot env (tick c)) ctx
                                   (LongPollExpirationInterval (config c)) returnEmptyTaskTimeBudget))]"
  using assms
  by (cases "newChildContext (snapshot env (tick c)) ctx
               (LongPollExpirationInterval (config c)) returnEmptyTaskTimeBudget")
     (simp add: getTask_def Let_def split: option.splits)

lemma GetTask_matcherCalls:
  "matcherCalls (snd (GetTask env ctx rate c)) = matcherCalls (snd (getTask env ctx rate c))"
  by (simp add: GetTask_def split: prod.splits sum.splits)

text \<open>
  Claim C4. The namespace is not active on this cluster (the lookup succeeds and reports
  a not-active error, at every attempt). Then \<^verbatim>\<open>AddTask\<close> makes no call on the
  matcher, so no sync match is attempted; it returns \<open>syncMatch = false\<close>; every
  attempt hands the task, and nothing else, to the writer's \<^verbatim>\<open>appendTask\<close>, at least
  once; and when \<^verbatim>\<open>AddTask\<close> returns without error, the last write sent to the store
  is this task's and the store accepted it. \<^verbatim>\<open>GetTask\<close> under the same condition
  updates the rate limit and then polls with \<^verbatim>\<open>PollForQuery\<close> only: \<^verbatim>\<open>Poll\<close> is not
  called.
\<close>

theorem not_active_namespace:
  assumes add_ns: "\<forall>t. \<exists>ns e. wGetNamespaceByID (snapshot env t) (NamespaceId (taskInfo params)) = Inr ns
                       \<and> GetNamespaceNotActiveErr ns = Some e"
      and poll_ns: "\<exists>ns e. wGetNamespaceByID (snapshot env (tick c)) (namespaceID (taskListID c)) = Inr ns
                       \<and> GetNamespaceNotActiveErr ns = Some e"
  shows "fst (fst (AddTask env ctx params c)) = False
         \<and> matcherCalls (snd (AddTask env ctx params c)) = matcherCalls c
         \<and> (\<exists>n\<ge>1. appendTaskCalls (snd (AddTask env ctx params c)) =
                     appendTaskCalls c @ replicate n (execution params, taskInfo params))
         \<and> (snd (fst (AddTask env ctx params c)) = None \<longrightarrow>
              (\<exists>tid older. createTasksLog (snd (AddTask env ctx params c)) =
                              older @ [(tid, taskInfo params, None)]
                  \<and> length (createTasksLog c) \<le> length older))
         \<and> matcherCalls (snd (GetTask env pollCtx rate c)) =
             matcherCalls c @
               [UpdateRatelimit rate,
                PollForQuery (fst (newChildContext (snapshot env (tick c)) pollCtx
                                     (LongPollExpirationInterval (config c)) returnEmptyTaskTimeBudget))]
         \<and> filter isPoll (matcherCalls (snd (GetTask env pollCtx rate c))) =
             filter isPoll (matcherCalls c)"
proof -
  let ?e = "(execution params, taskInfo params)"
  let ?op = "capturing (addTaskOperation env ctx params) :: unit option \<times> bool \<times> taskListManagerImpl \<Rightarrow> _"
  let ?P = "\<lambda>s :: unit option \<times> bool \<times> taskListManagerImpl.
              matcherCalls (snd (snd s)) = matcherCalls c
              \<and> (\<exists>n. appendTaskCalls (snd (snd s)) = appendTaskCalls c @ replicate n ?e)
              \<and> length (createTasksLog c) \<le> length (createTasksLog (snd (snd s)))"
  let ?Q = "\<lambda>r :: error option \<times> unit option \<times> bool \<times> taskListManagerImpl.
              fst (snd (snd r)) = False
              \<and> matcherCalls (snd (snd (snd r))) = matcherCalls c
              \<and> (\<exists>n\<ge>1. appendTaskCalls (snd (snd (snd r))) = appendTaskCalls c @ replicate n ?e)
              \<and> length (createTasksLog c) \<le> length (createTasksLog (snd (snd (snd r))))
              \<and> (fst r = None \<longrightarrow>
                   (\<exists>tid older. createTasksLog (snd (snd (snd r))) = older @ [(tid, taskInfo params, None)]
                       \<and> length (createTasksLog c) \<le> length older))"
  have step: "\<And>s. ?P s \<Longrightarrow> ?Q (?op s)"
  proof -
    fix s :: "unit option \<times> bool \<times> taskListManagerImpl"
    assume p: "?P s"
    obtain res x c0 where s: "s = (res, x, c0)" by (cases s)
    from add_ns obtain ns e where
      ns: "wGetNamespaceByID (snapshot env (tick c0)) (NamespaceId (taskInfo params)) = Inr ns"
          "GetNamespaceNotActiveErr ns = Some e" by blast
    let ?a = "appendTask env (snapshot env (tick c0)) (c0\<lparr> tick := tick c0 + 1 \<rparr>)
                (execution params) (taskInfo params)"
    from addTaskOperation_not_active [OF ns, where ctx = ctx and x = x]
    have run: "?op s = (snd (fst ?a), (fst (fst ?a), (False, snd ?a)))"
      by (simp add: capturing_def s split: prod.splits)
    from p s obtain n where n: "appendTaskCalls c0 = appendTaskCalls c @ replicate n ?e" by auto
    from appendTask_frame [of env "snapshot env (tick c0)" "c0\<lparr> tick := tick c0 + 1 \<rparr>"
           "execution params" "taskInfo params"] p s
    have m: "matcherCalls (snd ?a) = matcherCalls c"
     and a: "appendTaskCalls (snd ?a) = appendTaskCalls c0 @ [?e]" by simp_all
    from a n have "appendTaskCalls (snd ?a) = appendTaskCalls c @ replicate (Suc n) ?e"
      by (simp add: replicate_append_same)
    then have a': "\<exists>n\<ge>1. appendTaskCalls (snd ?a) = appendTaskCalls c @ replicate n ?e"
      by (intro exI [of _ "Suc n"]) simp
    from appendTask_log [of env "snapshot env (tick c0)" "c0\<lparr> tick := tick c0 + 1 \<rparr>"
           "execution params" "taskInfo params"] p s
    have l: "length (createTasksLog c) \<le> length (createTasksLog (snd ?a))" by auto
    have ok: "snd (fst ?a) = None \<longrightarrow>
                (\<exists>tid older. createTasksLog (snd ?a) = older @ [(tid, taskInfo params, None)]
                     \<and> length (createTasksLog c) \<le> length older)"
    proof
      assume "snd (fst ?a) = None"
      from appendTask_log_ok [OF this] obtain tid where
        "createTasksLog (snd ?a) = createTasksLog (c0\<lparr> tick := tick c0 + 1 \<rparr>) @ [(tid, taskInfo params, None)]"
        by blast
      with p s show "\<exists>tid older. createTasksLog (snd ?a) = older @ [(tid, taskInfo params, None)]
                     \<and> length (createTasksLog c) \<le> length older"
        by (intro exI [of _ tid] exI [of _ "createTasksLog c0"]) simp
    qed
    from run m a' l ok show "?Q (?op s)" by simp
  qed
  have weaken: "\<And>e s. ?Q (e, s) \<Longrightarrow> ?P s" by auto
  have init: "?P (None, (False, c))" by simp
  have q: "?Q (Retry (persistenceOperationRetryPolicy env) ?op retryUnlessConditionFailed
                 (None, (False, c)))"
    using step weaken init by (rule Retry_establishes [where P = ?P and Q = ?Q])
  obtain err res x c1 where
    r: "Retry (persistenceOperationRetryPolicy env) ?op retryUnlessConditionFailed (None, (False, c))
          = (err, (res, (x, c1)))"
    by (metis prod.exhaust)
  from q r have facts: "x = False" "matcherCalls c1 = matcherCalls c"
      "\<exists>n\<ge>1. appendTaskCalls c1 = appendTaskCalls c @ replicate n ?e"
      "err = None \<longrightarrow> (\<exists>tid older. createTasksLog c1 = older @ [(tid, taskInfo params, None)]
                       \<and> length (createTasksLog c) \<le> length older)"
    by simp_all
  have add: "fst (AddTask env ctx params c) = (x, err)"
    "matcherCalls (snd (AddTask env ctx params c)) = matcherCalls c1"
    "appendTaskCalls (snd (AddTask env ctx params c)) = appendTaskCalls c1"
    "createTasksLog (snd (AddTask env ctx params c)) = createTasksLog c1"
    using r by (simp_all add: AddTask_def executeWithRetry_def)
  from poll_ns obtain ns e where
    "wGetNamespaceByID (snapshot env (tick c)) (namespaceID (taskListID c)) = Inr ns"
    "GetNamespaceNotActiveErr ns = Some e" by blast
  from getTask_not_active [OF this, where ctx = pollCtx and rate = rate] GetTask_matcherCalls [of env pollCtx rate c]
  have poll: "matcherCalls (snd (GetTask env pollCtx rate c)) =
             matcherCalls c @
               [UpdateRatelimit rate,
                PollForQuery (fst (newChildContext (snapshot env (tick c)) pollCtx
                                     (LongPollExpirationInterval (config c)) returnEmptyTaskTimeBudget))]"
    by simp
  from facts add poll show ?thesis by simp
qed

lemma capturing_apply:
  "capturing operation (res, s) =
     (snd (fst (operation s)), (fst (fst (operation s)), snd (operation s)))"
  by (simp add: capturing_def split: prod.splits)

theorem not_active_namespace_witness:
  "(\<forall>t. \<exists>ns e. wGetNamespaceByID (snapshot (sampleEnv standbyWorld) t)
                    (NamespaceId (taskInfo sampleParams)) = Inr ns
                 \<and> GetNamespaceNotActiveErr ns = Some e)
   \<and> fst (AddTask (sampleEnv standbyWorld) sampleContext sampleParams sampleManager) = (False, None)
   \<and> matcherCalls (snd (AddTask (sampleEnv standbyWorld) sampleContext sampleParams sampleManager)) = []
   \<and> (\<exists>n\<ge>1. appendTaskCalls (snd (AddTask (sampleEnv standbyWorld) sampleContext sampleParams sampleManager))
               = replicate n (execution sampleParams, taskInfo sampleParams))
   \<and> (\<exists>tid older. createTasksLog (snd (AddTask (sampleEnv standbyWorld) sampleContext sampleParams
                                      sampleManager))
                    = older @ [(tid, taskInfo sampleParams, None)])
   \<and> matcherCalls (snd (GetTask (sampleEnv standbyWorld) sampleContext None sampleManager))
       = [UpdateRatelimit None, PollForQuery (WithTimeout sampleContext (9 * Second))]"
proof -
  let ?env = "sampleEnv standbyWorld"
  let ?op = "addTaskOperation ?env sampleContext sampleParams"
  have add_ns: "\<forall>t. \<exists>ns e. wGetNamespaceByID (snapshot ?env t) (NamespaceId (taskInfo sampleParams)) = Inr ns
                   \<and> GetNamespaceNotActiveErr ns = Some e"
    by (simp add: sampleEnv_def standbyWorld_def)
  have poll_ns: "\<exists>ns e. wGetNamespaceByID (snapshot ?env (tick sampleManager))
                     (namespaceID (taskListID sampleManager)) = Inr ns
                   \<and> GetNamespaceNotActiveErr ns = Some e"
    by (simp add: sampleEnv_def standbyWorld_def)
  have res: "fst (?op (False, sampleManager)) = (Some (), None)"
    by (simp add: run_defs sampleEnv_def standbyWorld_def)
  then have "capturing ?op (None, (False, sampleManager)) = (None, (Some (), snd (?op (False, sampleManager))))"
    by (simp add: capturing_apply)
  from Retry_succeeds [where operation = "capturing ?op" and s = "(None, (False, sampleManager))", OF this]
  have "snd (fst (AddTask ?env sampleContext sampleParams sampleManager)) = None"
    by (simp add: AddTask_def executeWithRetry_def split: prod.splits)
  moreover have "fst (newChildContext (snapshot ?env (tick sampleManager)) sampleContext
                   (LongPollExpirationInterval (config sampleManager)) returnEmptyTaskTimeBudget)
                 = WithTimeout sampleContext (9 * Second)"
    by (simp add: run_defs sampleEnv_def standbyWorld_def returnEmptyTaskTimeBudget_def)
  moreover have "matcherCalls sampleManager = []" "appendTaskCalls sampleManager = []"
    by (simp_all add: sampleManager_def)
  ultimately show ?thesis
    using not_active_namespace [OF add_ns poll_ns, of sampleContext sampleContext None] add_ns
    by (auto simp: prod_eq_iff)
qed

subsection \<open>The sentinel task id\<close>

lemma wrap64_small:
  "- 9223372036854775808 \<le> x \<Longrightarrow> x \<le> 9223372036854775807 \<Longrightarrow> wrap64 x = x"
  by (simp add: wrap64_def)

lemma rangeIDToTaskIDBlock_in_range:
  assumes size: "1 \<le> RangeSize (config c)"
      and rid: "1 \<le> rid"
      and fits: "rid * RangeSize (config c) \<le> 2 ^ 63 - 2"
  shows "blockStart (rangeIDToTaskIDBlock c rid) = (rid - 1) * RangeSize (config c) + 1
         \<and> blockEnd (rangeIDToTaskIDBlock c rid) = rid * RangeSize (config c)"
proof -
  let ?R = "RangeSize (config c)"
  from fits have top: "rid * ?R \<le> 9223372036854775806" by simp
  have le: "rid \<le> rid * ?R"
    using mult_left_mono [of 1 ?R rid] size rid by simp
  have prod: "(rid - 1) * ?R = rid * ?R - ?R"
    by (simp add: left_diff_distrib)
  have nonneg: "0 \<le> (rid - 1) * ?R"
    using size rid by simp
  have a: "wrap64 (rid - 1) = rid - 1"
    using rid le top by (intro wrap64_small) linarith+
  have b: "wrap64 ((rid - 1) * ?R) = (rid - 1) * ?R"
    using nonneg prod size top by (intro wrap64_small) linarith+
  have c: "wrap64 ((rid - 1) * ?R + 1) = (rid - 1) * ?R + 1"
    using nonneg prod size top by (intro wrap64_small) linarith+
  have d: "wrap64 (rid * ?R) = rid * ?R"
    using rid le top by (intro wrap64_small) linarith+
  from a b c d show ?thesis by (simp add: rangeIDToTaskIDBlock_def)
qed

lemma db_RenewLease_granted:
  "db_RenewLease env c = ((st, None), c1) \<Longrightarrow>
     \<exists>t rid. wLeaseTaskList (snapshot env t) rid = Inr st"
  by (auto simp: db_RenewLease_def Let_def split: sum.splits)

lemma renewLeaseWithRetry_granted:
  assumes "renewLeaseWithRetry env c = ((st, None), c1)"
  shows "\<exists>t rid. wLeaseTaskList (snapshot env t) rid = Inr st"
proof -
  let ?op = "\<lambda>(newState :: taskListState, c0).
                  case db_RenewLease env c0 of ((st, err), c1) \<Rightarrow> (err, (st, c1))"
  let ?Q = "\<lambda>r :: error option \<times> taskListState \<times> taskListManagerImpl.
              fst r = None \<longrightarrow> (\<exists>t rid. wLeaseTaskList (snapshot env t) rid = Inr (fst (snd r)))"
  have step: "\<And>s. True \<Longrightarrow> ?Q (?op s)"
  proof -
    fix s :: "taskListState \<times> taskListManagerImpl"
    obtain st0 c0 where s: "s = (st0, c0)" by (cases s)
    obtain st' err c' where r: "db_RenewLease env c0 = ((st', err), c')"
      by (cases "db_RenewLease env c0") auto
    show "?Q (?op s)"
    proof (cases err)
      case None
      with r db_RenewLease_granted [of env c0 st' c'] s show ?thesis by simp
    next
      case (Some e)
      with r s show ?thesis by simp
    qed
  qed
  have q: "?Q (Retry (persistenceOperationRetryPolicy env) ?op IsPersistenceTransientError
                 (\<lparr> rangeID = 0, ackLevel = 0 \<rparr>, c))"
    by (rule Retry_establishes [where P = "\<lambda>s. True" and Q = ?Q]) (use step in simp_all)
  obtain err st' c' where
    r: "Retry (persistenceOperationRetryPolicy env) ?op IsPersistenceTransientError
          (\<lparr> rangeID = 0, ackLevel = 0 \<rparr>, c) = (err, (st', c'))"
    by (metis prod.exhaust)
  from assms r have "err = None" "st' = st"
    by (auto simp: renewLeaseWithRetry_def split: option.splits)
  with q r show ?thesis by simp
qed

lemma allocTaskIDBlock_in_range:
  assumes leases: "leasesInRange env (RangeSize (config c))"
      and size: "1 \<le> RangeSize (config c)"
      and ok: "allocTaskIDBlock env e c = ((blk, None), c1)"
  shows "1 \<le> blockStart blk \<and> blockStart blk \<le> blockEnd blk \<and> blockEnd blk \<le> 2 ^ 63 - 2"
proof -
  from ok obtain st where
    lease: "renewLeaseWithRetry env c = ((st, None), c1)"
    and blk: "blk = rangeIDToTaskIDBlock c1 (rangeID st)"
    by (auto simp: allocTaskIDBlock_def Let_def split: if_splits prod.splits option.splits)
  from renewLeaseWithRetry_frame [of c env] lease have cfg: "config c1 = config c"
    by (simp add: sameLogs_def)
  from renewLeaseWithRetry_granted [OF lease] leases
  have r: "1 \<le> rangeID st" "rangeID st * RangeSize (config c) \<le> 2 ^ 63 - 2"
    by (auto simp: leasesInRange_def)
  from rangeIDToTaskIDBlock_in_range [of c1 "rangeID st"] size r cfg blk
  have s: "blockStart blk = (rangeID st - 1) * RangeSize (config c) + 1"
      and e: "blockEnd blk = rangeID st * RangeSize (config c)" by simp_all
  have "0 \<le> (rangeID st - 1) * RangeSize (config c)" using r size by simp
  moreover have "(rangeID st - 1) * RangeSize (config c) = rangeID st * RangeSize (config c) - RangeSize (config c)"
    by (simp add: left_diff_distrib)
  ultimately show ?thesis using s e r size by simp
qed

lemma allocTaskID_in_range:
  assumes inv: "writerBlockInRange c"
      and leases: "leasesInRange env (RangeSize (config c))"
  shows "writerBlockInRange (snd (allocTaskID env c))
         \<and> (snd (fst (allocTaskID env c)) = None \<longrightarrow> 1 \<le> fst (fst (allocTaskID env c)))"
proof (cases "blockStart (writerBlock c) > blockEnd (writerBlock c)")
  case False
  with inv have "wrap64 (blockStart (writerBlock c) + 1) = blockStart (writerBlock c) + 1"
    by (intro wrap64_id) (simp_all add: writerBlockInRange_def)
  with False inv show ?thesis
    by (simp add: allocTaskID_def Let_def writerBlockInRange_def)
next
  case True
  obtain blk err c1 where a: "allocTaskIDBlock env (blockEnd (writerBlock c)) c = ((blk, err), c1)"
    by (metis prod.exhaust)
  from allocTaskIDBlock_frame [of c env "blockEnd (writerBlock c)"] a
  have fr: "config c1 = config c" "writerBlock c1 = writerBlock c"
    by (simp_all add: sameLogs_def)
  show ?thesis
  proof (cases err)
    case (Some e)
    with True a fr inv show ?thesis
      by (simp add: allocTaskID_def Let_def writerBlockInRange_def)
  next
    case None
    from inv have size: "1 \<le> RangeSize (config c)" by (simp add: writerBlockInRange_def)
    from allocTaskIDBlock_in_range [OF leases size] a None
    have b: "1 \<le> blockStart blk" "blockStart blk \<le> blockEnd blk" "blockEnd blk \<le> 2 ^ 63 - 2"
      by simp_all
    then have "wrap64 (blockStart blk + 1) = blockStart blk + 1"
      by (intro wrap64_id) simp_all
    with True a None fr b size show ?thesis
      by (simp add: allocTaskID_def Let_def writerBlockInRange_def)
  qed
qed


lemma appendTask_in_range:
  assumes inv: "writerBlockInRange c"
      and leases: "leasesInRange env (RangeSize (config c))"
  shows "writerBlockInRange (snd (appendTask env w c exe ti))
         \<and> (createTasksLog (snd (appendTask env w c exe ti)) = createTasksLog c
            \<or> (\<exists>tid res. 1 \<le> tid
                  \<and> createTasksLog (snd (appendTask env w c exe ti)) = createTasksLog c @ [(tid, ti, res)]))"
proof -
  let ?c = "c\<lparr> appendTaskCalls := appendTaskCalls c @ [(exe, ti)] \<rparr>"
  have inv': "writerBlockInRange ?c" using inv by (simp add: writerBlockInRange_def)
  have leases': "leasesInRange env (RangeSize (config ?c))" using leases by simp
  obtain tid err c1 where a: "allocTaskID env ?c = ((tid, err), c1)" by (metis prod.exhaust)
  from allocTaskID_in_range [OF inv' leases'] a
  have r: "writerBlockInRange c1" "err = None \<longrightarrow> 1 \<le> tid" by simp_all
  from allocTaskID_frame [of ?c env] a have l: "createTasksLog c1 = createTasksLog c"
    by (simp add: sameLogs_def)
  from inv' r l a show ?thesis
    by (auto simp: appendTask_def Let_def writerBlockInRange_def split: option.splits)
qed

lemma addTaskOperation_writes:
  assumes inv: "writerBlockInRange c"
      and leases: "leasesInRange env (RangeSize (config c))"
  shows "writerBlockInRange (snd (snd (addTaskOperation env ctx params (x, c))))
         \<and> config (snd (snd (addTaskOperation env ctx params (x, c)))) = config c
         \<and> (createTasksLog (snd (snd (addTaskOperation env ctx params (x, c)))) = createTasksLog c
            \<or> (\<exists>tid res. 1 \<le> tid
                  \<and> createTasksLog (snd (snd (addTaskOperation env ctx params (x, c)))) =
                      createTasksLog c @ [(tid, taskInfo params, res)]))"
proof -
  let ?w = "snapshot env (tick c)"
  let ?c = "c\<lparr> tick := tick c + 1 \<rparr>"
  let ?c1 = "snd (trySyncMatch ?w ctx params ?c)"
  have i0: "writerBlockInRange ?c" "leasesInRange env (RangeSize (config ?c))"
    using inv leases by (simp_all add: writerBlockInRange_def)
  have i1: "writerBlockInRange ?c1" "leasesInRange env (RangeSize (config ?c1))"
       "createTasksLog ?c1 = createTasksLog c" "config ?c1 = config c"
    using inv leases trySyncMatch_frame [of ?w ctx params ?c]
    by (simp_all add: writerBlockInRange_def)
  note a0 = appendTask_in_range [OF i0, of ?w "execution params" "taskInfo params"]
            appendTask_frame [of env ?w ?c "execution params" "taskInfo params"]
  note a1 = appendTask_in_range [OF i1(1,2), of ?w "execution params" "taskInfo params"]
            appendTask_frame [of env ?w ?c1 "execution params" "taskInfo params"]
  show ?thesis
    using i0 i1 a0 a1
    by (auto simp: addTaskOperation_def Let_def split: sum.splits prod.splits)
qed

lemma addTaskOperation_offers:
  "matcherCalls (snd (snd (addTaskOperation env ctx params (x, c)))) = matcherCalls c
   \<or> (\<exists>call. sentinelOffer params call
         \<and> matcherCalls (snd (snd (addTaskOperation env ctx params (x, c)))) = matcherCalls c @ [call])"
proof -
  let ?w = "snapshot env (tick c)"
  let ?c = "c\<lparr> tick := tick c + 1 \<rparr>"
  let ?c1 = "snd (trySyncMatch ?w ctx params ?c)"
  from trySyncMatch_offer [of ?w ctx params ?c]
  have o: "\<exists>call. sentinelOffer params call \<and> matcherCalls ?c1 = matcherCalls c @ [call]" by auto
  note a0 = appendTask_frame [of env ?w ?c "execution params" "taskInfo params"]
  note a1 = appendTask_frame [of env ?w ?c1 "execution params" "taskInfo params"]
  show ?thesis
    using o a0 a1
    by (auto simp: addTaskOperation_def Let_def split: sum.splits prod.splits)
qed

lemma addTaskOperation_appends:
  "appendTaskCalls (snd (snd (addTaskOperation env ctx params (x, c)))) = appendTaskCalls c
   \<or> appendTaskCalls (snd (snd (addTaskOperation env ctx params (x, c)))) =
       appendTaskCalls c @ [(execution params, taskInfo params)]"
proof -
  let ?w = "snapshot env (tick c)"
  let ?c = "c\<lparr> tick := tick c + 1 \<rparr>"
  let ?c1 = "snd (trySyncMatch ?w ctx params ?c)"
  have t: "appendTaskCalls ?c1 = appendTaskCalls c"
    using trySyncMatch_frame [of ?w ctx params ?c] by simp
  note a0 = appendTask_frame [of env ?w ?c "execution params" "taskInfo params"]
  note a1 = appendTask_frame [of env ?w ?c1 "execution params" "taskInfo params"]
  show ?thesis
    using t a0 a1
    by (auto simp: addTaskOperation_def Let_def split: sum.splits prod.splits)
qed

lemma AddTask_invariant:
  assumes step: "\<And>x c0. I c0 \<Longrightarrow> I (snd (snd (addTaskOperation env ctx params (x, c0))))"
      and stop: "\<And>c0. I c0 \<Longrightarrow> I (Stop c0)"
      and signal: "\<And>c0. I c0 \<Longrightarrow> I (taskReader_Signal c0)"
      and init: "I c"
  shows "I (snd (AddTask env ctx params c))"
proof -
  let ?op = "capturing (addTaskOperation env ctx params) :: unit option \<times> bool \<times> taskListManagerImpl \<Rightarrow> _"
  let ?P = "\<lambda>s :: unit option \<times> bool \<times> taskListManagerImpl. I (snd (snd s))"
  have "\<And>s. ?P s \<Longrightarrow> ?P (snd (?op s))"
  proof -
    fix s :: "unit option \<times> bool \<times> taskListManagerImpl"
    assume p: "?P s"
    obtain res x c0 where s: "s = (res, x, c0)" by (cases s)
    from p s step [of c0 x] show "?P (snd (?op s))" by (simp add: capturing_apply)
  qed
  then have "?P (snd (Retry (persistenceOperationRetryPolicy env) ?op retryUnlessConditionFailed
                  (None, (False, c))))"
    using init by (intro Retry_establishes [where P = ?P and Q = "\<lambda>r. ?P (snd r)"]) auto
  then show ?thesis
    using stop signal by (auto simp: AddTask_def executeWithRetry_def split: prod.splits)
qed

text \<open>
  Claim C2. In every run of \<^verbatim>\<open>AddTask\<close>, whatever the environment answers: every
  call it makes on the matcher is an \<^verbatim>\<open>Offer\<close> of the payload wrapped with the
  sentinel task id -137; every call on the writer's \<^verbatim>\<open>appendTask\<close> passes the bare
  payload \<open>(execution, taskInfo)\<close>, never the wrapper; and every write the writer sends
  to the store for it carries an id taken from the writer's block, which is at least 1
  and so is not the sentinel. The last part assumes that the writer's block and the range
  ids granted by the store are in range (positive, and small enough for \<^verbatim>\<open>int64\<close>).
\<close>

theorem sentinel_task_never_written:
  "(\<exists>offers. matcherCalls (snd (AddTask env ctx params c)) = matcherCalls c @ offers
       \<and> (\<forall>call\<in>set offers. sentinelOffer params call))
   \<and> (\<exists>n. appendTaskCalls (snd (AddTask env ctx params c)) =
             appendTaskCalls c @ replicate n (execution params, taskInfo params))
   \<and> (writerBlockInRange c \<and> leasesInRange env (RangeSize (config c)) \<longrightarrow>
        (\<exists>writes. createTasksLog (snd (AddTask env ctx params c)) = createTasksLog c @ writes
           \<and> (\<forall>(tid, ti, res)\<in>set writes.
                 tid \<noteq> syncMatchTaskId \<and> 1 \<le> tid \<and> ti = taskInfo params)))"
proof (intro conjI impI)
  let ?I = "\<lambda>c' :: taskListManagerImpl. \<exists>offers. matcherCalls c' = matcherCalls c @ offers
                    \<and> (\<forall>call\<in>set offers. sentinelOffer params call)"
  have "?I (snd (AddTask env ctx params c))"
  proof (rule AddTask_invariant [where I = ?I])
    fix x :: bool and c0 :: taskListManagerImpl assume "?I c0"
    then obtain offers where o: "matcherCalls c0 = matcherCalls c @ offers"
      "\<forall>call\<in>set offers. sentinelOffer params call" by blast
    from addTaskOperation_offers [of env ctx params x c0]
    show "?I (snd (snd (addTaskOperation env ctx params (x, c0))))"
    proof
      assume "matcherCalls (snd (snd (addTaskOperation env ctx params (x, c0)))) = matcherCalls c0"
      with o show ?thesis by auto
    next
      assume "\<exists>call. sentinelOffer params call
         \<and> matcherCalls (snd (snd (addTaskOperation env ctx params (x, c0)))) = matcherCalls c0 @ [call]"
      then obtain call where "sentinelOffer params call"
        "matcherCalls (snd (snd (addTaskOperation env ctx params (x, c0)))) = matcherCalls c0 @ [call]"
        by blast
      with o show ?thesis by (intro exI [of _ "offers @ [call]"]) auto
    qed
  qed simp_all
  then show "\<exists>offers. matcherCalls (snd (AddTask env ctx params c)) = matcherCalls c @ offers
       \<and> (\<forall>call\<in>set offers. sentinelOffer params call)" .
next
  let ?e = "(execution params, taskInfo params)"
  let ?I = "\<lambda>c' :: taskListManagerImpl. \<exists>n. appendTaskCalls c' = appendTaskCalls c @ replicate n ?e"
  have "?I (snd (AddTask env ctx params c))"
  proof (rule AddTask_invariant [where I = ?I])
    fix x :: bool and c0 :: taskListManagerImpl assume "?I c0"
    then obtain n where n: "appendTaskCalls c0 = appendTaskCalls c @ replicate n ?e" by blast
    from addTaskOperation_appends [of env ctx params x c0]
    show "?I (snd (snd (addTaskOperation env ctx params (x, c0))))"
    proof
      assume "appendTaskCalls (snd (snd (addTaskOperation env ctx params (x, c0)))) = appendTaskCalls c0"
      with n show ?thesis by auto
    next
      assume "appendTaskCalls (snd (snd (addTaskOperation env ctx params (x, c0)))) =
                appendTaskCalls c0 @ [?e]"
      with n have "appendTaskCalls (snd (snd (addTaskOperation env ctx params (x, c0)))) =
                appendTaskCalls c @ replicate (Suc n) ?e"
        by (simp add: replicate_append_same)
      then show ?thesis by blast
    qed
  next
    show "?I c" by (intro exI [of _ 0]) simp
  qed simp_all
  then show "\<exists>n. appendTaskCalls (snd (AddTask env ctx params c)) =
             appendTaskCalls c @ replicate n (execution params, taskInfo params)" .
next
  assume h: "writerBlockInRange c \<and> leasesInRange env (RangeSize (config c))"
  let ?good = "\<lambda>writes :: (int \<times> TaskInfo \<times> error option) list.
                 \<forall>(tid, ti, res)\<in>set writes. tid \<noteq> syncMatchTaskId \<and> 1 \<le> tid \<and> ti = taskInfo params"
  let ?I = "\<lambda>c' :: taskListManagerImpl. writerBlockInRange c' \<and> config c' = config c
                \<and> (\<exists>writes. createTasksLog c' = createTasksLog c @ writes \<and> ?good writes)"
  have "?I (snd (AddTask env ctx params c))"
  proof (rule AddTask_invariant [where I = ?I])
    fix x :: bool and c0 :: taskListManagerImpl assume i: "?I c0"
    then obtain writes where w: "createTasksLog c0 = createTasksLog c @ writes" "?good writes"
      by blast
    from i h have "writerBlockInRange c0" "leasesInRange env (RangeSize (config c0))" by simp_all
    from addTaskOperation_writes [OF this, of ctx params x] i
    have r: "writerBlockInRange (snd (snd (addTaskOperation env ctx params (x, c0))))"
        "config (snd (snd (addTaskOperation env ctx params (x, c0)))) = config c"
        "createTasksLog (snd (snd (addTaskOperation env ctx params (x, c0)))) = createTasksLog c0
            \<or> (\<exists>tid res. 1 \<le> tid
                  \<and> createTasksLog (snd (snd (addTaskOperation env ctx params (x, c0)))) =
                      createTasksLog c0 @ [(tid, taskInfo params, res)])"
      by simp_all
    from r(3) have "\<exists>writes. createTasksLog (snd (snd (addTaskOperation env ctx params (x, c0)))) =
                       createTasksLog c @ writes \<and> ?good writes"
    proof
      assume "createTasksLog (snd (snd (addTaskOperation env ctx params (x, c0)))) = createTasksLog c0"
      with w show ?thesis by auto
    next
      assume "\<exists>tid res. 1 \<le> tid
                  \<and> createTasksLog (snd (snd (addTaskOperation env ctx params (x, c0)))) =
                      createTasksLog c0 @ [(tid, taskInfo params, res)]"
      then obtain tid res where t: "1 \<le> tid"
        "createTasksLog (snd (snd (addTaskOperation env ctx params (x, c0)))) =
           createTasksLog c0 @ [(tid, taskInfo params, res)]" by blast
      with w show ?thesis
        by (intro exI [of _ "writes @ [(tid, taskInfo params, res)]"])
           (auto simp: syncMatchTaskId_def)
    qed
    with r show "?I (snd (snd (addTaskOperation env ctx params (x, c0))))" by simp
  next
    show "?I c" using h by simp
  qed (auto simp: writerBlockInRange_def)
  then show "\<exists>writes. createTasksLog (snd (AddTask env ctx params c)) = createTasksLog c @ writes
           \<and> ?good writes" by simp
qed

theorem sentinel_task_never_written_witness:
  "writerBlockInRange exhaustedManager
   \<and> leasesInRange (sampleEnv secondLeaseWorld) (RangeSize (config exhaustedManager))
   \<and> map fst (createTasksLog (snd (AddTask (sampleEnv secondLeaseWorld) sampleContext sampleParams
                                     exhaustedManager))) = [100001]
   \<and> (\<exists>offers. matcherCalls (snd (AddTask (sampleEnv secondLeaseWorld) sampleContext sampleParams
                                     exhaustedManager)) = offers
         \<and> (\<forall>call\<in>set offers. sentinelOffer sampleParams call))
   \<and> (\<exists>writes. createTasksLog (snd (AddTask (sampleEnv secondLeaseWorld) sampleContext sampleParams
                                     exhaustedManager)) = writes
         \<and> (\<forall>(tid, ti, res)\<in>set writes.
               tid \<noteq> syncMatchTaskId \<and> 1 \<le> tid \<and> ti = taskInfo sampleParams))"
proof -
  let ?env = "sampleEnv secondLeaseWorld"
  let ?op = "addTaskOperation ?env sampleContext sampleParams"
  have inv: "writerBlockInRange exhaustedManager"
    by (simp add: writerBlockInRange_def exhaustedManager_def sampleManager_def sampleConfig_def)
  have leases: "leasesInRange ?env (RangeSize (config exhaustedManager))"
    by (simp add: leasesInRange_def sampleEnv_def secondLeaseWorld_def exhaustedManager_def
          sampleManager_def sampleConfig_def)
  have res: "fst (?op (False, exhaustedManager)) = (Some (), None)"
    by (simp add: run_defs allocTaskIDBlock_def renewLeaseWithRetry_def db_RenewLease_def
          rangeIDToTaskIDBlock_def exhaustedManager_def secondLeaseWorld_def sampleEnv_def
          eval_nat_numeral)
  have log: "map fst (createTasksLog (snd (snd (?op (False, exhaustedManager))))) = [100001]"
    by (simp add: run_defs allocTaskIDBlock_def renewLeaseWithRetry_def db_RenewLease_def
          rangeIDToTaskIDBlock_def exhaustedManager_def secondLeaseWorld_def sampleEnv_def
          eval_nat_numeral)
  from res have "capturing ?op (None, (False, exhaustedManager))
                   = (None, (Some (), snd (?op (False, exhaustedManager))))"
    by (simp add: capturing_apply)
  from Retry_succeeds [where operation = "capturing ?op" and s = "(None, (False, exhaustedManager))", OF this]
  have "createTasksLog (snd (AddTask ?env sampleContext sampleParams exhaustedManager))
          = createTasksLog (snd (snd (?op (False, exhaustedManager))))"
    by (simp add: AddTask_def executeWithRetry_def split: prod.splits)
  with log have written: "map fst (createTasksLog (snd (AddTask ?env sampleContext sampleParams
                            exhaustedManager))) = [100001]" by simp
  have empty: "matcherCalls exhaustedManager = []" "createTasksLog exhaustedManager = []"
    by (simp_all add: exhaustedManager_def sampleManager_def)
  from sentinel_task_never_written [of ?env sampleContext sampleParams exhaustedManager]
       inv leases written empty
  show ?thesis by simp
qed

subsection \<open>Updating user data away from the root\<close>

lemma UpdateUserData_non_root:
  "\<not> isRootWorkflowNormal m \<Longrightarrow>
     UpdateUserData mutator storeOutcome m =
       (Some errUserDataNoMutateNonRoot, m\<lparr> updateCalls := updateCalls m + 1 \<rparr>)"
  by (simp add: UpdateUserData_def isRootWorkflowNormal_def Let_def)

text \<open>
  Claim C8. On every partition that is not the root workflow partition of normal kind (a
  non-root partition, an activity partition, a sticky one), \<^verbatim>\<open>UpdateUserData\<close> fails
  with the fixed error \<^verbatim>\<open>errUserDataNoMutateNonRoot\<close>. The error is not a transient
  one, so under a retry with any budget the method still runs exactly once; the mutator
  is not called, nothing is written to the store, and the cached and the stored user data
  are unchanged.
\<close>

theorem UpdateUserData_non_root_fails:
  assumes "\<not> isRootWorkflowNormal m"
  shows "UpdateUserData mutator storeOutcome m =
           (Some errUserDataNoMutateNonRoot, m\<lparr> updateCalls := updateCalls m + 1 \<rparr>)
         \<and> Retry n (UpdateUserData mutator storeOutcome) IsPersistenceTransientError m =
           (Some errUserDataNoMutateNonRoot, m\<lparr> updateCalls := updateCalls m + 1 \<rparr>)
         \<and> userData (snd (UpdateUserData mutator storeOutcome m)) = userData m
         \<and> storedUserData (snd (UpdateUserData mutator storeOutcome m)) = storedUserData m
         \<and> mutatorCalls (snd (UpdateUserData mutator storeOutcome m)) = mutatorCalls m
         \<and> storeUpdates (snd (UpdateUserData mutator storeOutcome m)) = storeUpdates m"
proof -
  note run = UpdateUserData_non_root [OF assms, of mutator storeOutcome]
  have "\<not> IsPersistenceTransientError errUserDataNoMutateNonRoot" by simp
  from Retry_stops [where operation = "UpdateUserData mutator storeOutcome"
         and isRetryable = IsPersistenceTransientError, OF run this]
  have "Retry n (UpdateUserData mutator storeOutcome) IsPersistenceTransientError m =
           (Some errUserDataNoMutateNonRoot, m\<lparr> updateCalls := updateCalls m + 1 \<rparr>)" .
  with run show ?thesis by simp
qed

theorem UpdateUserData_non_root_fails_witness:
  "\<not> isRootWorkflowNormal sampleUserDataManager
   \<and> \<not> isRootWorkflowNormal (sampleUserDataManager\<lparr> udTaskType := TASK_QUEUE_TYPE_ACTIVITY,
                                                    udPartitionId := 0 \<rparr>)
   \<and> fst (UpdateUserData (\<lambda>d. Inr ''v2'') None sampleUserDataManager) =
       Some errUserDataNoMutateNonRoot
   \<and> fst (UpdateUserData (\<lambda>d. Inr ''v2'') None
            (sampleUserDataManager\<lparr> udTaskType := TASK_QUEUE_TYPE_ACTIVITY, udPartitionId := 0 \<rparr>)) =
       Some errUserDataNoMutateNonRoot
   \<and> updateCalls (snd (Retry 3 (UpdateUserData (\<lambda>d. Inr ''v2'') None)
                          IsPersistenceTransientError sampleUserDataManager)) = 1
   \<and> userData (snd (UpdateUserData (\<lambda>d. Inr ''v2'') None sampleUserDataManager)) =
       Some \<lparr> Version = 1, UserData = ''v1'' \<rparr>"
proof -
  let ?act = "sampleUserDataManager\<lparr> udTaskType := TASK_QUEUE_TYPE_ACTIVITY, udPartitionId := 0 \<rparr>"
  have sub: "\<not> isRootWorkflowNormal sampleUserDataManager"
    by (simp add: isRootWorkflowNormal_def sampleUserDataManager_def)
  have act: "\<not> isRootWorkflowNormal ?act"
    by (simp add: isRootWorkflowNormal_def)
  have d: "userData sampleUserDataManager = Some \<lparr> Version = 1, UserData = ''v1'' \<rparr>"
          "updateCalls sampleUserDataManager = 0"
    by (simp_all add: sampleUserDataManager_def)
  from UpdateUserData_non_root_fails [OF sub, of "\<lambda>d. Inr ''v2''" None 3]
       UpdateUserData_non_root_fails [OF act, of "\<lambda>d. Inr ''v2''" None 3] sub act d
  show ?thesis by simp
qed

subsection \<open>Two consequences for \<^verbatim>\<open>Start\<close> and \<^verbatim>\<open>completeTask\<close>\<close>

text \<open>
  A manager that \<^verbatim>\<open>Start\<close> has started successfully has a writer block in range, as
  the theorem on the sentinel id assumes.
\<close>

lemma Start_writerBlockInRange:
  assumes leases: "leasesInRange env (RangeSize (config c))"
      and size: "1 \<le> RangeSize (config c)"
      and started: "Start env c = (None, c')"
  shows "writerBlockInRange c'"
proof -
  from started obtain st c1 where
    lease: "renewLeaseWithRetry env c = ((st, None), c1)"
    and c': "c' = c1\<lparr> ackMgrLevel := ackLevel st,
                      writerBlock := rangeIDToTaskIDBlock c1 (rangeID st) \<rparr>"
    by (auto simp: Start_def split: prod.splits option.splits)
  from renewLeaseWithRetry_frame [of c env] lease have cfg: "config c1 = config c"
    by (simp add: sameLogs_def)
  from renewLeaseWithRetry_granted [OF lease] leases
  have r: "1 \<le> rangeID st" "rangeID st * RangeSize (config c) \<le> 2 ^ 63 - 2"
    by (auto simp: leasesInRange_def)
  from rangeIDToTaskIDBlock_in_range [of c1 "rangeID st"] size r cfg
  have s: "blockStart (rangeIDToTaskIDBlock c1 (rangeID st)) = (rangeID st - 1) * RangeSize (config c) + 1"
      and e: "blockEnd (rangeIDToTaskIDBlock c1 (rangeID st)) = rangeID st * RangeSize (config c)"
    by simp_all
  have "0 \<le> (rangeID st - 1) * RangeSize (config c)" using r size by simp
  with s e r size cfg c' show ?thesis by (simp add: writerBlockInRange_def)
qed

text \<open>
  The re-append of a task whose dispatch failed goes through \<^verbatim>\<open>executeWithRetry\<close>
  too: when the store answers it with a condition-failed error, \<^verbatim>\<open>completeTask\<close>
  leaves the manager stopped and does not acknowledge the task.
\<close>

lemma Stop_Stop: "Stop (Stop c) = Stop c"
  by (simp add: Stop_def removeTaskListManager_def Let_def)

lemma completeTask_condition_failed:
  assumes failed: "err \<noteq> None"
      and reappend: "appendTask env (snapshot env (tick c)) (c\<lparr> tick := tick c + 1 \<rparr>)
                       \<lparr> WorkflowId = TaskWorkflowId (Data task), RunId = TaskRunId (Data task) \<rparr>
                       (Data task) = ((r, Some (ConditionFailedError m)), c1)"
  shows "completeTask env task err c = Stop c1
         \<and> stopped (completeTask env task err c) \<noteq> 0
         \<and> ackCompleted (completeTask env task err c) = ackCompleted c1"
proof -
  let ?operation = "\<lambda>(u :: unit, c0).
                      let wf = \<lparr> WorkflowId = TaskWorkflowId (Data task), RunId = TaskRunId (Data task) \<rparr>
                      in case appendTask env (snapshot env (tick c0)) (c0\<lparr> tick := tick c0 + 1 \<rparr>)
                                wf (Data task) of
                           (r, c1) \<Rightarrow> (r, (u, c1))"
  from reappend have run: "?operation (stateBefore ?operation 0 ((), c))
                             = ((r, Some (ConditionFailedError m)), ((), c1))"
    by (simp add: Let_def)
  have nr: "\<not> retryUnlessConditionFailed (ConditionFailedError m)"
    by (simp add: retryUnlessConditionFailed_def)
  from Retry_until [where operation = ?operation and k = 0 and isRetryable = retryUnlessConditionFailed
         and n = "persistenceOperationRetryPolicy env" and held = None, OF _ _ run nr]
  have "executeWithRetry env ?operation ((), c) = ((r, Some (ConditionFailedError m)), ((), Stop c1))"
    by (simp add: executeWithRetry_def)
  with failed have "completeTask env task err c = Stop c1"
    by (simp add: completeTask_def Stop_Stop)
  with Stop_stopped [of c1] show ?thesis
    by (simp add: Stop_def removeTaskListManager_def Let_def)
qed

end
